theory Spec2Isabelle
  imports Main "HOL-Library.Word"
begin

section \<open>Data model of japacker.h\<close>

text \<open>
  \<^verbatim>\<open>unsigned int\<close> is a 32-bit word: addition, subtraction and multiplication wrap.
  A pointer into the empty-area array is the index of a slot, \<open>None\<close> is the null pointer.
  Undefined behaviour of the C program (null dereference, access behind the array,
  division by zero) and a loop that never ends are results of their own.
\<close>

type_synonym u32 = "32 word"

datatype fault = NullPointer | OutOfBounds | DivisionByZero | Diverges

datatype japacker_fail_policy = JAPACKER_STOP | JAPACKER_CONTINUE | JAPACKER_NEW_IMAGE

datatype japacker_sort_type =
  JAPACKER_SORT_BY_PERIMETER | JAPACKER_SORT_BY_AREA | JAPACKER_SORT_BY_HEIGHT | JAPACKER_SORT_BY_WIDTH

text \<open>
  \<^verbatim>\<open>struct japacker_rect\<close>. The flags \<open>packed\<close> and \<open>rotated\<close> are only ever written
  0 or 1 and only tested for being non-zero, so they are booleans; \<open>image_index\<close> is an
  \<^verbatim>\<open>int\<close> that is only assigned from and compared with \<^verbatim>\<open>unsigned int\<close> values, so it is
  kept as its 32-bit pattern.
\<close>

record japacker_rect =
  input_width :: u32
  input_height :: u32
  output_x :: u32
  output_y :: u32
  output_packed :: bool
  output_rotated :: bool
  output_image_index :: u32

text \<open>\<^verbatim>\<open>struct japacker_empty_area\<close>.\<close>

record japacker_empty_area =
  ea_x :: u32
  ea_y :: u32
  ea_width :: u32
  ea_height :: u32
  ea_comparator :: u32
  ea_prev :: "nat option"
  ea_next :: "nat option"

text \<open>
  \<^verbatim>\<open>struct japacker_internal_data\<close> with its member \<^verbatim>\<open>empty_areas\<close> flattened:
  \<open>first_area\<close>, \<open>last_area\<close>, \<open>area_list\<close>, \<open>area_index\<close>, \<open>area_size\<close> and
  \<open>set_comparator\<close> are \<^verbatim>\<open>empty_areas.first\<close>, \<^verbatim>\<open>.last\<close>, \<^verbatim>\<open>.list\<close>, \<^verbatim>\<open>.index\<close>,
  \<^verbatim>\<open>.size\<close> and \<^verbatim>\<open>.set_comparator\<close>. The function pointer \<open>set_comparator\<close> is the
  sort type whose comparator function it points to, or null. \<open>sorted_rects\<close> holds, for
  each position of the sorted view, the index of the rectangle in \<^verbatim>\<open>packer->rects\<close>.
  \<open>area_index\<close> starts at 0 and is only incremented, so it is a natural number.
\<close>

record japacker_internal_data =
  sorted_rects :: "nat list option"
  num_rects :: u32
  image_width :: u32
  image_height :: u32
  first_area :: "nat option"
  last_area :: "nat option"
  area_list :: "japacker_empty_area list"
  area_index :: nat
  area_size :: int
  set_comparator :: "japacker_sort_type option"

definition zero_area :: japacker_empty_area where
  "zero_area = \<lparr>ea_x = 0, ea_y = 0, ea_width = 0, ea_height = 0, ea_comparator = 0,
     ea_prev = None, ea_next = None\<rparr>"

section \<open>Empty areas\<close>

text \<open>The four comparator functions \<^verbatim>\<open>japacker_empty_area_set_*_comparator\<close>.\<close>

fun comparator_of :: "japacker_sort_type \<Rightarrow> japacker_empty_area \<Rightarrow> u32" where
  "comparator_of JAPACKER_SORT_BY_PERIMETER a = ea_height a + ea_width a"
| "comparator_of JAPACKER_SORT_BY_AREA a = ea_height a * ea_width a"
| "comparator_of JAPACKER_SORT_BY_WIDTH a = ea_width a"
| "comparator_of JAPACKER_SORT_BY_HEIGHT a = ea_height a"

text \<open>
  The call \<^verbatim>\<open>data->empty_areas.set_comparator(area)\<close>: a null function pointer is a fault.
\<close>

definition call_set_comparator ::
  "japacker_internal_data \<Rightarrow> nat \<Rightarrow> fault + japacker_internal_data" where
  "call_set_comparator d area =
     (case set_comparator d of
        None \<Rightarrow> Inl NullPointer
      | Some t \<Rightarrow> Inr (d\<lparr>area_list := (area_list d)
            [area := (area_list d ! area)\<lparr>ea_comparator := comparator_of t (area_list d ! area)\<rparr>]\<rparr>))"

text \<open>
  \<^verbatim>\<open>japacker_reset_empty_areas\<close>: the memset clears the first \<open>area_size\<close> slots, then
  slot 0 becomes the only area. Its comparator stays 0.
\<close>

definition japacker_reset_empty_areas ::
  "japacker_internal_data \<Rightarrow> u32 \<Rightarrow> u32 \<Rightarrow> fault + japacker_internal_data" where
  "japacker_reset_empty_areas d width height =
     (if area_size d < 0 \<or> length (area_list d) < nat (area_size d) then Inl OutOfBounds
      else let l = replicate (nat (area_size d)) zero_area @ drop (nat (area_size d)) (area_list d)
           in if l = [] then Inl OutOfBounds
              else Inr (d\<lparr>area_index := 0, first_area := Some 0, last_area := Some 0,
                     area_list := l[0 := (l ! 0)\<lparr>ea_width := width, ea_height := height\<rparr>]\<rparr>))"

text \<open>Assignments through a pointer to one field of a slot.\<close>

definition set_prev :: "japacker_empty_area list \<Rightarrow> nat \<Rightarrow> nat option \<Rightarrow> japacker_empty_area list" where
  "set_prev l n v = l[n := (l ! n)\<lparr>ea_prev := v\<rparr>]"

definition set_next :: "japacker_empty_area list \<Rightarrow> nat \<Rightarrow> nat option \<Rightarrow> japacker_empty_area list" where
  "set_next l n v = l[n := (l ! n)\<lparr>ea_next := v\<rparr>]"

text \<open>
  The while loop of \<^verbatim>\<open>japacker_sort_empty_area\<close>: walk backwards from \<open>current\<close> to the
  first area whose comparator is below \<open>c\<close>. The walk changes nothing, so a walk of more
  steps than there are slots is in a cycle and never ends.
\<close>

fun find_smaller ::
  "nat \<Rightarrow> japacker_empty_area list \<Rightarrow> u32 \<Rightarrow> nat option \<Rightarrow> fault + nat option" where
  "find_smaller fuel l c None = Inr None"
| "find_smaller 0 l c (Some n) = Inl Diverges"
| "find_smaller (Suc fuel) l c (Some n) =
     (if ea_comparator (l ! n) < c then Inr (Some n)
      else find_smaller fuel l c (ea_prev (l ! n)))"

text \<open>\<^verbatim>\<open>japacker_sort_empty_area\<close>, statement by statement.\<close>

definition japacker_sort_empty_area ::
  "japacker_internal_data \<Rightarrow> nat \<Rightarrow> nat option \<Rightarrow> fault + japacker_internal_data" where
  "japacker_sort_empty_area d area current =
     (case first_area d of
        None \<Rightarrow> Inr (d\<lparr>first_area := Some area, last_area := Some area\<rparr>)
      | Some f \<Rightarrow>
         (let l = area_list d in
          case find_smaller (length l) l (ea_comparator (l ! area)) current of
            Inl e \<Rightarrow> Inl e
          | Inr (Some cur) \<Rightarrow>
              (if Some cur = last_area d
               then Inr (d\<lparr>last_area := Some area,
                       area_list := set_next (set_prev l area (Some cur)) cur (Some area)\<rparr>)
               else let l1 = set_next l area (ea_next (l ! cur)) in
                    (case ea_next (l1 ! area) of
                       None \<Rightarrow> Inl NullPointer
                     | Some nx \<Rightarrow>
                         Inr (d\<lparr>area_list :=
                           set_next (set_prev (set_prev l1 nx (Some area)) area (Some cur))
                             cur (Some area)\<rparr>)))
          | Inr None \<Rightarrow>
              Inr (d\<lparr>first_area := Some area,
                     area_list := set_next (set_prev l f (Some area)) area (Some f)\<rparr>)))"

text \<open>\<^verbatim>\<open>japacker_delist_empty_area\<close>, statement by statement.\<close>

definition japacker_delist_empty_area ::
  "japacker_internal_data \<Rightarrow> nat \<Rightarrow> japacker_internal_data" where
  "japacker_delist_empty_area d area =
     (let l = area_list d;
          d1 = (if Some area = first_area d then d\<lparr>first_area := ea_next (l ! area)\<rparr> else d);
          d2 = (if Some area = last_area d1 then d1\<lparr>last_area := ea_prev (l ! area)\<rparr> else d1);
          l1 = (case ea_prev (l ! area) of
                  Some p \<Rightarrow> set_next l p (ea_next (l ! area)) | None \<Rightarrow> l);
          l2 = (case ea_next (l1 ! area) of
                  Some n \<Rightarrow> set_prev l1 n (ea_prev (l1 ! area)) | None \<Rightarrow> l1)
      in d2\<lparr>area_list := set_next (set_prev l2 area None) area None\<rparr>)"

text \<open>
  The four tests of the loop body of \<^verbatim>\<open>japacker_merge_adjacent_empty_areas\<close>, in the
  order of the source: \<open>c\<close> is \<^verbatim>\<open>*current\<close>, \<open>a\<close> is \<^verbatim>\<open>*area\<close>.
\<close>

datatype adjacency = Adjacent_left | Adjacent_right | Adjacent_top | Adjacent_bottom

definition adjacent :: "japacker_empty_area \<Rightarrow> japacker_empty_area \<Rightarrow> adjacency option" where
  "adjacent c a =
     (let same_height = (ea_y c = ea_y a \<and> ea_height c = ea_height a);
          same_width = (ea_x c = ea_x a \<and> ea_width c = ea_width a)
      in if same_height \<and> ea_x c + ea_width c = ea_x a then Some Adjacent_left
         else if same_height \<and> ea_x a + ea_width a = ea_x c then Some Adjacent_right
         else if same_width \<and> ea_y c + ea_height c = ea_y a then Some Adjacent_top
         else if same_width \<and> ea_y a + ea_height a = ea_y c then Some Adjacent_bottom
         else None)"

text \<open>What the matching branch assigns to \<^verbatim>\<open>*area\<close>.\<close>

fun absorb :: "adjacency \<Rightarrow> japacker_empty_area \<Rightarrow> japacker_empty_area \<Rightarrow> japacker_empty_area" where
  "absorb Adjacent_left c a = a\<lparr>ea_x := ea_x c, ea_width := ea_width a + ea_width c\<rparr>"
| "absorb Adjacent_right c a = a\<lparr>ea_width := ea_width a + ea_width c\<rparr>"
| "absorb Adjacent_top c a = a\<lparr>ea_y := ea_y c, ea_height := ea_height a + ea_height c\<rparr>"
| "absorb Adjacent_bottom c a = a\<lparr>ea_height := ea_height a + ea_height c\<rparr>"

text \<open>
  The for loop of \<^verbatim>\<open>japacker_merge_adjacent_empty_areas\<close> up to its first match: it
  follows the \<open>next\<close> pointers and changes nothing, so more steps than slots never end.
\<close>

fun merge_scan ::
  "nat \<Rightarrow> japacker_empty_area list \<Rightarrow> nat \<Rightarrow> nat option \<Rightarrow> fault + (nat \<times> adjacency) option" where
  "merge_scan fuel l area None = Inr None"
| "merge_scan 0 l area (Some c) = Inl Diverges"
| "merge_scan (Suc fuel) l area (Some c) =
     (case adjacent (l ! c) (l ! area) of
        Some k \<Rightarrow> Inr (Some (c, k))
      | None \<Rightarrow> merge_scan fuel l area (ea_next (l ! c)))"

text \<open>
  \<^verbatim>\<open>japacker_merge_adjacent_empty_areas\<close>: on a match the area absorbs \<open>current\<close>,
  \<open>current\<close> is delisted and the function calls itself (its result is then 1). Every
  call delists one slot, so the depth of the recursion is bounded by the number of slots.
\<close>

fun merge_depth ::
  "nat \<Rightarrow> japacker_internal_data \<Rightarrow> nat \<Rightarrow> fault + (japacker_internal_data \<times> bool)" where
  "merge_depth 0 d area = Inl Diverges"
| "merge_depth (Suc k) d area =
     (let l = area_list d in
      case merge_scan (length l) l area (first_area d) of
        Inl e \<Rightarrow> Inl e
      | Inr None \<Rightarrow> Inr (d, False)
      | Inr (Some (c, kind)) \<Rightarrow>
          (case merge_depth k
                  (japacker_delist_empty_area
                     (d\<lparr>area_list := l[area := absorb kind (l ! c) (l ! area)]\<rparr>) c) area of
             Inl e \<Rightarrow> Inl e
           | Inr (d', _) \<Rightarrow> Inr (d', True)))"

definition japacker_merge_adjacent_empty_areas ::
  "japacker_internal_data \<Rightarrow> nat \<Rightarrow> fault + (japacker_internal_data \<times> bool)" where
  "japacker_merge_adjacent_empty_areas d area = merge_depth (Suc (length (area_list d))) d area"

text \<open>
  What the program cannot fix by itself: the order \<^verbatim>\<open>qsort\<close> leaves the rectangles in
  (ties are in no fixed order), how many of the three \<^verbatim>\<open>malloc\<close> calls of
  \<^verbatim>\<open>japacker_init\<close> succeed before one fails (3 when none fails), whether the
  \<^verbatim>\<open>malloc\<close> of \<^verbatim>\<open>japacker_sort_rects\<close> succeeds, which operand of the sum
  of the two merge calls in \<^verbatim>\<open>japacker_split_empty_area\<close> is evaluated first (C leaves
  it open), and the two floating-point expressions
  \<^verbatim>\<open>(unsigned int) sqrt(rects_area * image_ratio)\<close> and
  \<^verbatim>\<open>(unsigned int) sqrt(rects_area / image_ratio)\<close> of
  \<^verbatim>\<open>japacker_reduce_last_image_size\<close>, as a function of \<open>rects_area\<close>, \<open>image_width\<close>
  and \<open>image_height\<close>.
\<close>

record environment =
  qsort_result :: "nat list"
  init_mallocs :: nat
  malloc_ok :: bool
  right_operand_first :: bool
  truncated_sqrts :: "u32 \<Rightarrow> u32 \<Rightarrow> u32 \<Rightarrow> u32 \<times> u32"

text \<open>Assignments through a pointer to the geometry of a slot.\<close>

definition set_x :: "japacker_empty_area list \<Rightarrow> nat \<Rightarrow> u32 \<Rightarrow> japacker_empty_area list" where
  "set_x l n v = l[n := (l ! n)\<lparr>ea_x := v\<rparr>]"

definition set_y :: "japacker_empty_area list \<Rightarrow> nat \<Rightarrow> u32 \<Rightarrow> japacker_empty_area list" where
  "set_y l n v = l[n := (l ! n)\<lparr>ea_y := v\<rparr>]"

definition set_width :: "japacker_empty_area list \<Rightarrow> nat \<Rightarrow> u32 \<Rightarrow> japacker_empty_area list" where
  "set_width l n v = l[n := (l ! n)\<lparr>ea_width := v\<rparr>]"

definition set_height :: "japacker_empty_area list \<Rightarrow> nat \<Rightarrow> u32 \<Rightarrow> japacker_empty_area list" where
  "set_height l n v = l[n := (l ! n)\<lparr>ea_height := v\<rparr>]"

text \<open>
  The first half of \<^verbatim>\<open>japacker_split_empty_area\<close>: the geometry of the new slot and of
  the repurposed area, one assignment after the other. \<^verbatim>\<open>remaining_width\<close> and
  \<^verbatim>\<open>remaining_height\<close> are \<^verbatim>\<open>int\<close>, so they are compared as signed values.
\<close>

definition split_geometry ::
  "japacker_empty_area list \<Rightarrow> nat \<Rightarrow> nat \<Rightarrow> u32 \<Rightarrow> u32 \<Rightarrow> japacker_empty_area list" where
  "split_geometry l area new_area width height =
     (let remaining_width = ea_width (l ! area) - width;
          remaining_height = ea_height (l ! area) - height
      in if sint remaining_width > sint remaining_height
         then let l1 = set_x l new_area (ea_x (l ! area));
                  l2 = set_y l1 new_area (ea_y (l1 ! area) + height);
                  l3 = set_width l2 new_area width;
                  l4 = set_height l3 new_area (ea_height (l3 ! area) - height);
                  l5 = set_x l4 area (ea_x (l4 ! area) + width)
              in set_width l5 area (ea_width (l5 ! area) - width)
         else let l1 = set_x l new_area (ea_x (l ! area) + width);
                  l2 = set_y l1 new_area (ea_y (l1 ! area));
                  l3 = set_width l2 new_area (ea_width (l2 ! area) - width);
                  l4 = set_height l3 new_area height;
                  l5 = set_y l4 area (ea_y (l4 ! area) + height)
              in set_height l5 area (ea_height (l5 ! area) - height))"

text \<open>Sequencing of steps that may fault.\<close>

definition fbind :: "fault + 'a \<Rightarrow> ('a \<Rightarrow> fault + 'b) \<Rightarrow> fault + 'b" where
  "fbind m f = (case m of Inl e \<Rightarrow> Inl e | Inr v \<Rightarrow> f v)"

text \<open>
  The two merge calls of \<^verbatim>\<open>japacker_split_empty_area\<close> and their sum \<open>merged\<close>, as
  whether it is non-zero.
\<close>

definition merge_both ::
  "environment \<Rightarrow> japacker_internal_data \<Rightarrow> nat \<Rightarrow> nat \<Rightarrow> fault + (japacker_internal_data \<times> bool)" where
  "merge_both env d area new_area =
     (if right_operand_first env
      then fbind (japacker_merge_adjacent_empty_areas d new_area) (\<lambda>(d1, m1).
           fbind (japacker_merge_adjacent_empty_areas d1 area) (\<lambda>(d2, m2). Inr (d2, m1 \<or> m2)))
      else fbind (japacker_merge_adjacent_empty_areas d area) (\<lambda>(d1, m1).
           fbind (japacker_merge_adjacent_empty_areas d1 new_area) (\<lambda>(d2, m2). Inr (d2, m1 \<or> m2))))"

text \<open>
  \<^verbatim>\<open>japacker_split_empty_area\<close>. The new slot is \<^verbatim>\<open>list[++index]\<close>; behind the array
  this is a fault.
\<close>

definition japacker_split_empty_area ::
  "environment \<Rightarrow> japacker_internal_data \<Rightarrow> nat \<Rightarrow> u32 \<Rightarrow> u32 \<Rightarrow> fault + japacker_internal_data" where
  "japacker_split_empty_area env d area width height =
     (let new_area = Suc (area_index d) in
      if length (area_list d) \<le> new_area then Inl OutOfBounds
      else
        let d0 = d\<lparr>area_index := new_area,
                   area_list := split_geometry (area_list d) area new_area width height\<rparr>;
            original_prev = ea_prev (area_list d0 ! area)
        in fbind (merge_both env (japacker_delist_empty_area d0 area) area new_area) (\<lambda>(d1, merged).
           fbind (call_set_comparator d1 area) (\<lambda>d2.
           fbind (call_set_comparator d2 new_area) (\<lambda>d3.
             if \<not> merged
             then fbind (japacker_sort_empty_area d3 area original_prev) (\<lambda>d4.
                  japacker_sort_empty_area d4 new_area (ea_prev (area_list d4 ! area)))
             else if ea_comparator (area_list d3 ! new_area) < ea_comparator (area_list d3 ! area)
             then fbind (japacker_sort_empty_area d3 area (last_area d3)) (\<lambda>d4.
                  japacker_sort_empty_area d4 new_area (ea_prev (area_list d4 ! area)))
             else fbind (japacker_sort_empty_area d3 new_area (last_area d3)) (\<lambda>d4.
                  japacker_sort_empty_area d4 area (ea_prev (area_list d4 ! new_area)))))))"

section \<open>Packing one rectangle\<close>

text \<open>
  The for loop of \<^verbatim>\<open>japacker_pack_rect\<close> up to the first area the rectangle fits in.
\<close>

fun find_fit ::
  "nat \<Rightarrow> japacker_empty_area list \<Rightarrow> u32 \<Rightarrow> u32 \<Rightarrow> nat option \<Rightarrow> fault + nat option" where
  "find_fit fuel l width height None = Inr None"
| "find_fit 0 l width height (Some a) = Inl Diverges"
| "find_fit (Suc fuel) l width height (Some a) =
     (if height > ea_height (l ! a) \<or> width > ea_width (l ! a)
      then find_fit fuel l width height (ea_next (l ! a))
      else Inr (Some a))"

text \<open>
  The tail shared by the same-height and the same-width branch, after the area was
  shrunk: remember \<open>prev\<close>, delist, merge, set the comparator, sort.
\<close>

definition relist_shrunk_area ::
  "japacker_internal_data \<Rightarrow> nat \<Rightarrow> fault + japacker_internal_data" where
  "relist_shrunk_area d area =
     (let prev = ea_prev (area_list d ! area) in
      fbind (japacker_merge_adjacent_empty_areas (japacker_delist_empty_area d area) area) (\<lambda>(d1, merged).
      fbind (call_set_comparator d1 area) (\<lambda>d2.
        japacker_sort_empty_area d2 area (if merged then last_area d1 else prev))))"

text \<open>The body of the for loop of \<^verbatim>\<open>japacker_pack_rect\<close> once the rectangle fits in \<open>area\<close>.\<close>

definition place_in_area ::
  "environment \<Rightarrow> japacker_internal_data \<Rightarrow> nat \<Rightarrow> u32 \<Rightarrow> u32 \<Rightarrow> fault + japacker_internal_data" where
  "place_in_area env d area width height =
     (let l = area_list d in
      if height = ea_height (l ! area) \<and> width = ea_width (l ! area)
      then Inr (japacker_delist_empty_area d area)
      else if height = ea_height (l ! area)
      then let l1 = set_x l area (ea_x (l ! area) + width);
               l2 = set_width l1 area (ea_width (l1 ! area) - width)
           in relist_shrunk_area (d\<lparr>area_list := l2\<rparr>) area
      else if width = ea_width (l ! area)
      then let l1 = set_y l area (ea_y (l ! area) + height);
               l2 = set_height l1 area (ea_height (l1 ! area) - height)
           in relist_shrunk_area (d\<lparr>area_list := l2\<rparr>) area
      else japacker_split_empty_area env d area width height)"

text \<open>
  \<^verbatim>\<open>japacker_pack_rect\<close>. The rectangle is passed by pointer, so the model returns it
  with the data and with the result (1 is \<open>True\<close>).
\<close>

function japacker_pack_rect ::
  "environment \<Rightarrow> japacker_internal_data \<Rightarrow> japacker_rect \<Rightarrow> int \<Rightarrow>
     fault + (japacker_internal_data \<times> japacker_rect \<times> bool)" where
  "japacker_pack_rect env d rect allow_rotation =
     (let width = (if \<not> output_rotated rect then input_width rect else input_height rect);
          height = (if \<not> output_rotated rect then input_height rect else input_width rect)
      in case find_fit (length (area_list d)) (area_list d) width height (first_area d) of
           Inl e \<Rightarrow> Inl e
         | Inr (Some area) \<Rightarrow>
             fbind (place_in_area env d area width height) (\<lambda>d'.
               Inr (d', rect\<lparr>output_x := ea_x (area_list d ! area),
                              output_y := ea_y (area_list d ! area),
                              output_packed := True\<rparr>, True))
         | Inr None \<Rightarrow>
             if allow_rotation \<noteq> 0
             then japacker_pack_rect env d (rect\<lparr>output_rotated := True\<rparr>) 0
             else Inr (d, rect\<lparr>output_rotated := False\<rparr>, False))"
  by pat_completeness auto
termination
  by (relation "measure (\<lambda>(env, d, rect, allow_rotation). if allow_rotation = 0 then 0 else 1)") auto

declare japacker_pack_rect.simps [simp del]

section \<open>The packer\<close>

text \<open>
  \<^verbatim>\<open>struct japacker_t\<close> with \<^verbatim>\<open>options\<close> and \<^verbatim>\<open>result\<close> flattened. The option flags
  are \<^verbatim>\<open>int\<close>s that the source compares with 1 in some places and with 0 in others, so
  they stay integers. \<open>rects\<close> is the array \<^verbatim>\<open>packer->rects\<close>, which is never null after
  a successful \<^verbatim>\<open>japacker_init\<close>.
\<close>

record japacker_t =
  rects :: "japacker_rect list"
  allow_rotation :: int
  rects_are_sorted :: int
  always_repack :: int
  reduce_image_size :: int
  sort_by :: japacker_sort_type
  fail_policy :: japacker_fail_policy
  images_needed :: u32
  last_image_width :: u32
  last_image_height :: u32
  internal_data :: japacker_internal_data

text \<open>
  The \<^verbatim>\<open>int\<close> results of the public functions are kept as their 32-bit patterns: a count
  of rectangles, or one of the error codes.
\<close>

definition JAPACKER_OK :: u32 where "JAPACKER_OK = 0"
definition JAPACKER_ERROR_WRONG_PARAMETERS :: u32 where "JAPACKER_ERROR_WRONG_PARAMETERS = - 1"
definition JAPACKER_ERROR_NO_MEMORY :: u32 where "JAPACKER_ERROR_NO_MEMORY = - 2"

definition JAPACKER_TOLERABLE_AREA_DIFFERENCE_PERCENTAGE :: u32 where
  "JAPACKER_TOLERABLE_AREA_DIFFERENCE_PERCENTAGE = 2"

definition zero_rect :: japacker_rect where
  "zero_rect = \<lparr>input_width = 0, input_height = 0, output_x = 0, output_y = 0,
     output_packed = False, output_rotated = False, output_image_index = 0\<rparr>"

definition zero_data :: japacker_internal_data where
  "zero_data = \<lparr>sorted_rects = None, num_rects = 0, image_width = 0, image_height = 0,
     first_area = None, last_area = None, area_list = [], area_index = 0, area_size = 0,
     set_comparator = None\<rparr>"

definition zero_packer :: japacker_t where
  "zero_packer = \<lparr>rects = [], allow_rotation = 0, rects_are_sorted = 0, always_repack = 0,
     reduce_image_size = 0, sort_by = JAPACKER_SORT_BY_PERIMETER, fail_policy = JAPACKER_STOP,
     images_needed = 0, last_image_width = 0, last_image_height = 0, internal_data = zero_data\<rparr>"

text \<open>
  \<^verbatim>\<open>japacker_init\<close>. The packer is cleared, then the internal data, the array of
  rectangles and the array of empty areas are allocated in this order, and the first
  \<^verbatim>\<open>malloc\<close> that fails ends the function with what was written until then. When the
  first one fails \<open>internal_data\<close> is a null pointer; this model has no null data and
  gives the cleared data there, as after a failure of the second one, where the data
  exist and are all zero. When the third one fails the rectangles, their number and the
  size of the image are set, and the array of empty areas is null with \<open>size\<close> 0. The
  array of empty areas has \<open>num_rects + 1\<close> slots, computed in \<^verbatim>\<open>unsigned int\<close> and
  stored in the \<^verbatim>\<open>int\<close> field \<open>size\<close>; its content is unspecified until the first
  reset clears it.
\<close>

definition japacker_init :: "environment \<Rightarrow> u32 \<Rightarrow> u32 \<Rightarrow> u32 \<Rightarrow> japacker_t \<times> u32" where
  "japacker_init env num_rectangles width height =
     (if init_mallocs env < 2 then (zero_packer, JAPACKER_ERROR_NO_MEMORY)
      else
        let packer = zero_packer\<lparr>rects := replicate (unat num_rectangles) zero_rect,
                       internal_data := zero_data\<lparr>num_rects := num_rectangles,
                         image_width := width, image_height := height\<rparr>\<rparr>
        in if init_mallocs env < 3 then (packer, JAPACKER_ERROR_NO_MEMORY)
           else (packer\<lparr>internal_data := (internal_data packer)
                    \<lparr>area_list := replicate (unat (num_rectangles + 1)) zero_area,
                     area_size := sint (num_rectangles + 1)\<rparr>\<rparr>, JAPACKER_OK))"


text \<open>
  \<^verbatim>\<open>japacker_sort_rects\<close>: the result is whether it succeeded. The comparator function
  is only chosen when the rectangles are sorted here.
\<close>

definition japacker_sort_rects :: "environment \<Rightarrow> japacker_t \<Rightarrow> japacker_t \<times> bool" where
  "japacker_sort_rects env packer =
     (let data = internal_data packer in
      if \<not> malloc_ok env then (packer\<lparr>internal_data := data\<lparr>sorted_rects := None\<rparr>\<rparr>, False)
      else if rects_are_sorted packer \<noteq> 1
      then (packer\<lparr>rects_are_sorted := 1,
              internal_data := data\<lparr>sorted_rects := Some (qsort_result env),
                set_comparator := Some (sort_by packer)\<rparr>\<rparr>, True)
      else (packer\<lparr>internal_data := data\<lparr>sorted_rects := Some [0 ..< unat (num_rects data)]\<rparr>\<rparr>,
            True))"

text \<open>
  Reading \<^verbatim>\<open>data->sorted_rects[i]\<close>: the array has \<open>num_rects\<close> entries once
  \<^verbatim>\<open>japacker_sort_rects\<close> has run, and the loops below visit them in order; a null array
  is a fault.
\<close>

definition deref_sorted_rects :: "japacker_internal_data \<Rightarrow> fault + nat list" where
  "deref_sorted_rects data =
     (case sorted_rects data of None \<Rightarrow> Inl NullPointer | Some rs \<Rightarrow> Inr rs)"

text \<open>How a loop body ends: the loop goes on with its variables, or the function returns.\<close>

datatype 'a flow = Continue 'a | Return u32

text \<open>
  The local variables \<^verbatim>\<open>request_new_image\<close>, \<^verbatim>\<open>packed_rects\<close> and
  \<^verbatim>\<open>area_used_in_last_image\<close> of \<^verbatim>\<open>japacker_pack\<close>.
\<close>

record pack_vars =
  request_new_image :: bool
  packed_rects :: u32
  area_used_in_last_image :: u32

text \<open>
  The body of the for loop of \<^verbatim>\<open>japacker_pack\<close> for \<open>rect = sorted_rects[i]\<close>, where
  \<open>r\<close> is the index of that rectangle in \<open>rects\<close>.
\<close>

definition pack_step ::
  "environment \<Rightarrow> japacker_t \<Rightarrow> u32 \<Rightarrow> nat \<Rightarrow> pack_vars \<Rightarrow> fault + (japacker_t \<times> pack_vars flow)" where
  "pack_step env packer i r vars =
     (let rect = rects packer ! r in
      if output_packed rect \<and> (always_repack packer \<noteq> 1 \<or> images_needed packer \<noteq> 0)
      then Inr (packer, Continue vars)
      else
        fbind (japacker_pack_rect env (internal_data packer) (rect\<lparr>output_packed := False\<rparr>)
                (allow_rotation packer)) (\<lambda>(data, rect', ok).
          let packer' = packer\<lparr>rects := (rects packer)[r := rect'], internal_data := data\<rparr> in
          if \<not> ok then
            if fail_policy packer = JAPACKER_CONTINUE then Inr (packer', Continue vars)
            else if fail_policy packer = JAPACKER_NEW_IMAGE then
              (case first_area data of
                 None \<Rightarrow> Inl NullPointer
               | Some f \<Rightarrow>
                   if ea_width (area_list data ! f) = image_width data \<and>
                      ea_height (area_list data ! f) = image_height data
                   then Inr (packer'\<lparr>images_needed := images_needed packer' - 1\<rparr>,
                             Return (packed_rects vars))
                   else Inr (packer', Continue (vars\<lparr>request_new_image := True\<rparr>)))
            else Inr (packer', Return i)
          else
            Inr (packer'\<lparr>rects := (rects packer')
                   [r := rect'\<lparr>output_image_index := images_needed packer, output_packed := True\<rparr>]\<rparr>,
                 Continue (vars\<lparr>area_used_in_last_image :=
                              area_used_in_last_image vars + input_width rect' * input_height rect',
                            packed_rects := packed_rects vars + 1\<rparr>))))"

text \<open>
  The for loop of \<^verbatim>\<open>japacker_pack\<close> from position \<open>i\<close> on; \<open>rs\<close> are the entries
  \<open>sorted_rects[i]\<close>, \<open>sorted_rects[i + 1]\<close>, ... still to visit.
\<close>

fun pack_for ::
  "environment \<Rightarrow> japacker_t \<Rightarrow> u32 \<Rightarrow> nat list \<Rightarrow> pack_vars \<Rightarrow> fault + (japacker_t \<times> pack_vars flow)" where
  "pack_for env packer i [] vars = Inr (packer, Continue vars)"
| "pack_for env packer i (r # rs) vars =
     (case pack_step env packer i r vars of
        Inl e \<Rightarrow> Inl e
      | Inr (packer', Return v) \<Rightarrow> Inr (packer', Return v)
      | Inr (packer', Continue vars') \<Rightarrow> pack_for env packer' (i + 1) rs vars')"

text \<open>
  The do-while loop of \<^verbatim>\<open>japacker_pack\<close>. A pass that asks for a new image has packed
  at least one more rectangle, so more passes than rectangles (plus one) never end.
\<close>

fun pack_images ::
  "nat \<Rightarrow> environment \<Rightarrow> japacker_t \<Rightarrow> u32 \<Rightarrow> fault + (japacker_t \<times> pack_vars flow)" where
  "pack_images 0 env packer packed = Inl Diverges"
| "pack_images (Suc fuel) env packer packed =
     (let data = internal_data packer in
      fbind (japacker_reset_empty_areas data (image_width data) (image_height data)) (\<lambda>data'.
      fbind (deref_sorted_rects data') (\<lambda>rs.
      case pack_for env (packer\<lparr>internal_data := data'\<rparr>) 0 rs
             \<lparr>request_new_image = False, packed_rects = packed, area_used_in_last_image = 0\<rparr> of
        Inl e \<Rightarrow> Inl e
      | Inr (packer', Return v) \<Rightarrow> Inr (packer', Return v)
      | Inr (packer', Continue vars) \<Rightarrow>
          (let packer'' = packer'\<lparr>images_needed := images_needed packer' + 1\<rparr> in
           if request_new_image vars then pack_images fuel env packer'' (packed_rects vars)
           else Inr (packer'', Continue vars)))))"

section \<open>Reducing the last image\<close>

text \<open>
  The for loop inside the while loop of \<^verbatim>\<open>japacker_reduce_last_image_size\<close>: the
  result says whether \<open>failed_to_pack\<close> was set.
\<close>

fun repack_last_image ::
  "environment \<Rightarrow> japacker_t \<Rightarrow> u32 \<Rightarrow> nat list \<Rightarrow> fault + (japacker_t \<times> bool)" where
  "repack_last_image env packer image_index [] = Inr (packer, False)"
| "repack_last_image env packer image_index (r # rs) =
     (if output_image_index (rects packer ! r) \<noteq> image_index
      then repack_last_image env packer image_index rs
      else
        fbind (japacker_pack_rect env (internal_data packer) (rects packer ! r)
                (allow_rotation packer)) (\<lambda>(data, rect', ok).
          let packer' = packer\<lparr>rects := (rects packer)[r := rect'], internal_data := data\<rparr> in
          if \<not> ok then Inr (packer', True)
          else repack_last_image env packer' image_index rs))"

text \<open>The for loop after the while loop: the result of packing is not looked at.\<close>

fun restore_last_image ::
  "environment \<Rightarrow> japacker_t \<Rightarrow> u32 \<Rightarrow> nat list \<Rightarrow> fault + japacker_t" where
  "restore_last_image env packer image_index [] = Inr packer"
| "restore_last_image env packer image_index (r # rs) =
     (if output_image_index (rects packer ! r) \<noteq> image_index
      then restore_last_image env packer image_index rs
      else
        fbind (japacker_pack_rect env (internal_data packer) (rects packer ! r)
                (allow_rotation packer)) (\<lambda>(data, rect', ok).
          restore_last_image env
            (packer\<lparr>rects := (rects packer)[r := rect'], internal_data := data\<rparr>) image_index rs))"

text \<open>
  The while loop of \<^verbatim>\<open>japacker_reduce_last_image_size\<close>. The result is \<open>None\<close> when the
  function returned from inside the loop, and the last successful width and height when
  the loop ended. \<open>rects_area\<close> is not 0 here.
\<close>

function reduce_loop ::
  "environment \<Rightarrow> japacker_t \<Rightarrow> u32 \<Rightarrow> u32 \<Rightarrow> u32 \<Rightarrow> u32 \<Rightarrow> u32 \<Rightarrow> u32 \<Rightarrow>
     fault + (japacker_t \<times> (u32 \<times> u32) option)" where
  "reduce_loop env packer rects_area image_index delta_width delta_height
       last_successful_width last_successful_height =
     (if delta_width \<noteq> 0 \<and> delta_height \<noteq> 0 then
        let packer1 =
              (if last_successful_width = last_image_width packer
               then packer\<lparr>last_image_width := last_image_width packer - delta_width,
                           last_image_height := last_image_height packer - delta_height\<rparr>
               else packer\<lparr>last_image_width := last_image_width packer + delta_width,
                           last_image_height := last_image_height packer + delta_height\<rparr>)
        in fbind (japacker_reset_empty_areas (internal_data packer1)
                   (last_image_width packer1) (last_image_height packer1)) (\<lambda>data.
           fbind (deref_sorted_rects data) (\<lambda>rs.
           fbind (repack_last_image env (packer1\<lparr>internal_data := data\<rparr>) image_index rs)
             (\<lambda>(packer2, failed_to_pack).
             if \<not> failed_to_pack then
               let area_percentage_difference =
                     (last_image_width packer2 * last_image_height packer2 * 100) div rects_area
               in if area_percentage_difference < 100 + JAPACKER_TOLERABLE_AREA_DIFFERENCE_PERCENTAGE
                  then Inr (packer2, None)
                  else reduce_loop env packer2 rects_area image_index
                         (delta_width div 2) (delta_height div 2)
                         (last_image_width packer2) (last_image_height packer2)
             else reduce_loop env packer2 rects_area image_index
                    (delta_width div 2) (delta_height div 2)
                    last_successful_width last_successful_height)))
      else Inr (packer, Some (last_successful_width, last_successful_height)))"
  by pat_completeness auto
termination
  by (relation "measure (\<lambda>(env, packer, rects_area, image_index, delta_width, rest). unat delta_width)")
     (auto simp: unat_div unat_gt_0)

declare reduce_loop.simps [simp del]

text \<open>
  \<^verbatim>\<open>japacker_reduce_last_image_size\<close>. The first statement divides by \<open>rects_area\<close>.
\<close>

definition japacker_reduce_last_image_size ::
  "environment \<Rightarrow> japacker_t \<Rightarrow> u32 \<Rightarrow> fault + japacker_t" where
  "japacker_reduce_last_image_size env packer rects_area =
     (let data = internal_data packer;
          current_area = image_width data * image_height data
      in if rects_area = 0 then Inl DivisionByZero
         else if (current_area * 100) div rects_area
                   < 100 + JAPACKER_TOLERABLE_AREA_DIFFERENCE_PERCENTAGE
         then Inr packer
         else
           let image_index = images_needed packer - 1;
               needed_width = fst (truncated_sqrts env rects_area (image_width data) (image_height data)) + 1;
               needed_height = snd (truncated_sqrts env rects_area (image_width data) (image_height data)) + 1;
               delta_width = (image_width data - needed_width) div 2;
               delta_height = (image_height data - needed_height) div 2
           in fbind (reduce_loop env packer rects_area image_index delta_width delta_height
                      (image_width data) (image_height data)) (\<lambda>(packer1, ended).
                case ended of
                  None \<Rightarrow> Inr packer1
                | Some (last_successful_width, last_successful_height) \<Rightarrow>
                    if last_successful_width \<noteq> last_image_width packer1
                    then let packer2 = packer1\<lparr>last_image_width := last_successful_width,
                                                last_image_height := last_successful_height\<rparr>
                         in fbind (japacker_reset_empty_areas (internal_data packer2)
                                    (last_image_width packer2) (last_image_height packer2)) (\<lambda>data'.
                            fbind (deref_sorted_rects data') (\<lambda>rs.
                              restore_last_image env (packer2\<lparr>internal_data := data'\<rparr>)
                                image_index rs))
                    else Inr packer1))"

section \<open>The public functions\<close>

text \<open>
  The statements of \<^verbatim>\<open>japacker_pack\<close> before its do-while loop: the check of the
  parameters, the sort and the reset of \<open>images_needed\<close> for a full repack. The result is
  the packer and \<open>JAPACKER_OK\<close>, or the error code that \<^verbatim>\<open>japacker_pack\<close> returns.
\<close>

definition pack_prologue :: "environment \<Rightarrow> japacker_t \<Rightarrow> japacker_t \<times> u32" where
  "pack_prologue env packer =
     (let data = internal_data packer in
      if num_rects data = 0 \<or> image_width data = 0 \<or> image_height data = 0 \<or>
         word_of_int (area_size data) \<noteq> num_rects data + 1
      then (packer, JAPACKER_ERROR_WRONG_PARAMETERS)
      else
        let (packer1, sorted_ok) =
              (if rects_are_sorted packer \<noteq> 1 \<or> sorted_rects data = None
               then japacker_sort_rects env packer else (packer, True))
        in if \<not> sorted_ok then (packer1, JAPACKER_ERROR_NO_MEMORY)
           else (if always_repack packer1 \<noteq> 0
                 then packer1\<lparr>images_needed := 0\<rparr> else packer1, JAPACKER_OK))"

text \<open>
  \<^verbatim>\<open>japacker_pack\<close>. The result is the packer and the returned \<^verbatim>\<open>int\<close>.
\<close>

definition japacker_pack :: "environment \<Rightarrow> japacker_t \<Rightarrow> fault + (japacker_t \<times> u32)" where
  "japacker_pack env packer =
     (case pack_prologue env packer of (packer2, code) \<Rightarrow>
        if code \<noteq> JAPACKER_OK then Inr (packer2, code)
        else
          fbind (pack_images (Suc (unat (num_rects (internal_data packer2)))) env packer2 0)
            (\<lambda>(packer3, ended).
               case ended of
                 Return v \<Rightarrow> Inr (packer3, v)
               | Continue vars \<Rightarrow>
                   let packer4 = packer3\<lparr>last_image_width := image_width (internal_data packer3),
                                          last_image_height := image_height (internal_data packer3)\<rparr>
                   in if reduce_image_size packer4 = 1
                      then fbind (japacker_reduce_last_image_size env packer4
                                    (area_used_in_last_image vars)) (\<lambda>packer5.
                             Inr (packer5, packed_rects vars))
                      else Inr (packer4, packed_rects vars)))"

text \<open>
  The local variable \<^verbatim>\<open>dst_width\<close> of \<^verbatim>\<open>japacker_get_dst_offset\<close>: the width of the
  image the rectangle is on. It is an \<^verbatim>\<open>int\<close> that is only multiplied with and added to
  \<^verbatim>\<open>unsigned int\<close> values, so the whole offset is computed modulo \<open>2^32\<close>.
\<close>

definition dst_width :: "japacker_t \<Rightarrow> japacker_rect \<Rightarrow> u32" where
  "dst_width packer rect =
     (if reduce_image_size packer = 1 \<and> output_image_index rect = images_needed packer - 1
      then last_image_width packer else image_width (internal_data packer))"

text \<open>\<^verbatim>\<open>japacker_get_dst_offset\<close>.\<close>

definition japacker_get_dst_offset :: "japacker_t \<Rightarrow> japacker_rect \<Rightarrow> u32 \<Rightarrow> u32 \<Rightarrow> u32" where
  "japacker_get_dst_offset packer rect x y =
     (if \<not> output_rotated rect
      then (y + output_y rect) * dst_width packer rect + output_x rect + x
      else (output_y rect + input_width rect - 1) * dst_width packer rect + y + output_x rect
             - x * dst_width packer rect)"

section \<open>The list of empty areas\<close>

text \<open>
  The slots of the doubly linked list, from \<open>first\<close> along the \<open>next\<close> pointers. A list
  without a cycle has at most as many members as the array has slots.
\<close>

fun areas_from :: "nat \<Rightarrow> japacker_empty_area list \<Rightarrow> nat option \<Rightarrow> nat list" where
  "areas_from fuel l None = []"
| "areas_from 0 l (Some a) = []"
| "areas_from (Suc fuel) l (Some a) = a # areas_from fuel l (ea_next (l ! a))"

definition listed_areas :: "japacker_internal_data \<Rightarrow> nat list" where
  "listed_areas d = areas_from (length (area_list d)) (area_list d) (first_area d)"

text \<open>The comparators along the list, and whether they ascend.\<close>

definition listed_comparators :: "japacker_internal_data \<Rightarrow> u32 list" where
  "listed_comparators d = map (\<lambda>a. ea_comparator (area_list d ! a)) (listed_areas d)"

definition comparators_ascend :: "japacker_internal_data \<Rightarrow> bool" where
  "comparators_ascend d = sorted (listed_comparators d)"

section \<open>Concrete runs\<close>

text \<open>
  The caller writes the width and the height of every rectangle between
  \<^verbatim>\<open>japacker_init\<close> and \<^verbatim>\<open>japacker_pack\<close>.
\<close>

definition with_inputs :: "japacker_t \<Rightarrow> (u32 \<times> u32) list \<Rightarrow> japacker_t" where
  "with_inputs packer dims =
     packer\<lparr>rects := map (\<lambda>(r, (w, h)). r\<lparr>input_width := w, input_height := h\<rparr>)
                        (zip (rects packer) dims)\<rparr>"

text \<open>
  The two square roots of \<^verbatim>\<open>japacker_reduce_last_image_size\<close> as a C implementation with
  IEEE 754 arithmetic computes them: \<^verbatim>\<open>float\<close> is binary32, every operation rounds to the
  nearest value (ties to the even mantissa) and is evaluated in the type of its
  operands. A positive \<^verbatim>\<open>float\<close> is kept as a fraction \<open>(p, q)\<close> of natural numbers, which
  need not be in lowest terms.

  \<open>binary32 p q\<close> rounds the fraction \<open>p / q\<close> to 24 significant bits: it is scaled by
  a power of two into the range from \<open>2^23\<close> to \<open>2^24\<close> (\<open>mantissa_up\<close> doubles the
  numerator, \<open>mantissa_down\<close> the denominator), rounded to an integer and scaled back.
  Exponents are not bounded: the values here lie between \<open>2^-32\<close> and \<open>2^64\<close>, far from
  the denormal numbers and from the overflow of binary32.
\<close>

fun mantissa_up :: "nat \<Rightarrow> nat \<Rightarrow> nat \<Rightarrow> nat" where
  "mantissa_up 0 p q = 0"
| "mantissa_up (Suc fuel) p q =
     (if 2 ^ 23 * q \<le> p then 0 else Suc (mantissa_up fuel (2 * p) q))"

fun mantissa_down :: "nat \<Rightarrow> nat \<Rightarrow> nat \<Rightarrow> nat" where
  "mantissa_down 0 p q = 0"
| "mantissa_down (Suc fuel) p q =
     (if p < 2 ^ 24 * q then 0 else Suc (mantissa_down fuel p (2 * q)))"

definition round_to_even :: "nat \<Rightarrow> nat \<Rightarrow> nat" where
  "round_to_even n d =
     (if 2 * (n mod d) < d \<or> (2 * (n mod d) = d \<and> even (n div d))
      then n div d else n div d + 1)"

definition scaled :: "nat \<Rightarrow> nat \<Rightarrow> nat \<Rightarrow> nat \<Rightarrow> nat \<times> nat" where
  "scaled p q u d = (round_to_even (p * 2 ^ u) (q * 2 ^ d) * 2 ^ d, 2 ^ u)"

definition binary32 :: "nat \<Rightarrow> nat \<Rightarrow> nat \<times> nat" where
  "binary32 p q =
     (if p = 0 then (0, 1) else scaled p q (mantissa_up 256 p q) (mantissa_down 256 p q))"

text \<open>
  The conversion of an \<^verbatim>\<open>unsigned int\<close> to \<^verbatim>\<open>float\<close>, and the product and the quotient
  of two \<^verbatim>\<open>float\<close>s.
\<close>

definition float_of_nat :: "nat \<Rightarrow> nat \<times> nat" where
  "float_of_nat n = binary32 n 1"

definition float_mul :: "nat \<times> nat \<Rightarrow> nat \<times> nat \<Rightarrow> nat \<times> nat" where
  "float_mul x y = binary32 (fst x * fst y) (snd x * snd y)"

definition float_div :: "nat \<times> nat \<Rightarrow> nat \<times> nat \<Rightarrow> nat \<times> nat" where
  "float_div x y = binary32 (fst x * snd y) (snd x * fst y)"

text \<open>
  The largest \<open>m \<le> k\<close> with \<open>m * m \<le> n\<close>; from \<open>k = n\<close> it is the truncated square
  root of \<open>n\<close>.
\<close>

fun sqrt_search :: "nat \<Rightarrow> nat \<Rightarrow> nat" where
  "sqrt_search n 0 = 0"
| "sqrt_search n (Suc k) = (if Suc k * Suc k \<le> n then Suc k else sqrt_search n k)"

definition isqrt :: "nat \<Rightarrow> nat" where
  "isqrt n = sqrt_search n n"

text \<open>
  \<^verbatim>\<open>(unsigned int) sqrt(x)\<close> for a \<^verbatim>\<open>float\<close> \<open>x\<close>: the argument is converted to \<^verbatim>\<open>double\<close>
  exactly, \<^verbatim>\<open>sqrt\<close> rounds the root to the nearest \<^verbatim>\<open>double\<close>, and the conversion
  truncates. For \<open>x\<close> below \<open>2^48\<close> the rounding never reaches the next integer (the
  root of a binary32 value below a square \<open>k * k\<close> stays below \<open>k\<close> by more than a
  \<^verbatim>\<open>double\<close> can round away), so the result is the truncated root of the truncated \<open>x\<close>.
\<close>

definition truncated_sqrt :: "nat \<times> nat \<Rightarrow> u32" where
  "truncated_sqrt x = of_nat (isqrt (fst x div snd x))"

text \<open>
  \<^verbatim>\<open>float image_ratio = data->image_width / (float) data->image_height\<close>, where the width
  is converted to \<^verbatim>\<open>float\<close> for the division, and the pair of
  \<^verbatim>\<open>(unsigned int) sqrt(rects_area * image_ratio)\<close> and
  \<^verbatim>\<open>(unsigned int) sqrt(rects_area / image_ratio)\<close>, where \<open>rects_area\<close> is converted
  to \<^verbatim>\<open>float\<close>. The width and the height are not 0 here.
\<close>

definition image_ratio :: "u32 \<Rightarrow> u32 \<Rightarrow> nat \<times> nat" where
  "image_ratio w h = float_div (float_of_nat (unat w)) (float_of_nat (unat h))"

definition c_truncated_sqrts :: "u32 \<Rightarrow> u32 \<Rightarrow> u32 \<Rightarrow> u32 \<times> u32" where
  "c_truncated_sqrts a w h =
     (truncated_sqrt (float_mul (float_of_nat (unat a)) (image_ratio w h)),
      truncated_sqrt (float_div (float_of_nat (unat a)) (image_ratio w h)))"

text \<open>
  An environment for the runs: every \<^verbatim>\<open>malloc\<close> succeeds, the left operand is
  evaluated first, \<^verbatim>\<open>qsort\<close> leaves the rectangles in the given order, and the square
  roots are computed in IEEE 754 arithmetic.
\<close>

definition run_environment :: "nat list \<Rightarrow> environment" where
  "run_environment order = \<lparr>qsort_result = order, init_mallocs = 3, malloc_ok = True,
     right_operand_first = False, truncated_sqrts = c_truncated_sqrts\<rparr>"

definition first_of :: "nat list \<Rightarrow> nat option" where
  "first_of ns = (case ns of [] \<Rightarrow> None | n # _ \<Rightarrow> Some n)"

definition last_of :: "nat list \<Rightarrow> nat option" where
  "last_of ns = (if ns = [] then None else Some (last ns))"

primrec next_in :: "nat list \<Rightarrow> nat \<Rightarrow> nat option" where
  "next_in [] n = None"
| "next_in (x # ys) n = (if n = x then first_of ys else next_in ys n)"

primrec prev_in :: "nat list \<Rightarrow> nat \<Rightarrow> nat option" where
  "prev_in [] n = None"
| "prev_in (x # ys) n = (if first_of ys = Some n then Some x else prev_in ys n)"

definition linked :: "japacker_internal_data \<Rightarrow> nat list \<Rightarrow> bool" where
  "linked d ns =
     (distinct ns \<and> (\<forall>n \<in> set ns. n < length (area_list d)) \<and>
      first_area d = first_of ns \<and> last_area d = last_of ns \<and>
      (\<forall>n < length (area_list d).
         ea_prev (area_list d ! n) = prev_in ns n \<and> ea_next (area_list d ! n) = next_in ns n))"

definition geometry :: "japacker_empty_area \<Rightarrow> u32 \<times> u32 \<times> u32 \<times> u32" where
  "geometry a = (ea_x a, ea_y a, ea_width a, ea_height a)"

section \<open>Regions of the image\<close>

text \<open>
  A pixel is a pair of a column and a row. The box at \<open>(x, y)\<close> of width \<open>w\<close> and
  height \<open>h\<close> holds the pixels of the columns \<open>x, ..., x + w - 1\<close> and the rows
  \<open>y, ..., y + h - 1\<close>.
\<close>

definition box :: "nat \<Rightarrow> nat \<Rightarrow> nat \<Rightarrow> nat \<Rightarrow> (nat \<times> nat) set" where
  "box x y w h = {(px, py). x \<le> px \<and> px < x + w \<and> y \<le> py \<and> py < y + h}"

definition area_region :: "japacker_empty_area \<Rightarrow> (nat \<times> nat) set" where
  "area_region a = box (unat (ea_x a)) (unat (ea_y a)) (unat (ea_width a)) (unat (ea_height a))"

text \<open>
  The footprint of a packed rectangle: at its output position, with width and height
  swapped when it is rotated.
\<close>

definition footprint :: "japacker_rect \<Rightarrow> (nat \<times> nat) set" where
  "footprint r =
     box (unat (output_x r)) (unat (output_y r))
       (unat (if output_rotated r then input_height r else input_width r))
       (unat (if output_rotated r then input_width r else input_height r))"

text \<open>
  A list of regions tiles a whole: no two of them share a pixel and their union is the
  whole.
\<close>

definition tiles :: "(nat \<times> nat) set list \<Rightarrow> (nat \<times> nat) set \<Rightarrow> bool" where
  "tiles regions whole =
     ((\<forall>i j. i < j \<and> j < length regions \<longrightarrow> regions ! i \<inter> regions ! j = {}) \<and>
      \<Union> (set regions) = whole)"

text \<open>The number of regions of a list that hold a pixel.\<close>

definition covers :: "(nat \<times> nat) set list \<Rightarrow> nat \<times> nat \<Rightarrow> nat" where
  "covers regions p = length (filter (\<lambda>r. p \<in> r) regions)"

text \<open>An area lies within the image when its right and lower edges do.\<close>

definition within_image :: "u32 \<Rightarrow> u32 \<Rightarrow> japacker_empty_area \<Rightarrow> bool" where
  "within_image w h a =
     (unat (ea_x a) + unat (ea_width a) \<le> unat w \<and> unat (ea_y a) + unat (ea_height a) \<le> unat h)"

text \<open>1 when the area holds the pixel, 0 otherwise.\<close>

definition holds :: "japacker_empty_area \<Rightarrow> nat \<times> nat \<Rightarrow> nat" where
  "holds a p = (if p \<in> area_region a then 1 else 0)"

section \<open>The invariant of the empty areas\<close>

text \<open>
  The store is in order for an image of \<open>w\<close> x \<open>h\<close> when the links of the array are those
  of the list \<open>ns\<close>, and the listed slots as well as the slots \<open>F\<close> that an operation has
  taken off the list (or is about to put on it) are in use (at most the high-water
  index) and lie within the image.
\<close>

definition store_inv ::
  "u32 \<Rightarrow> u32 \<Rightarrow> japacker_internal_data \<Rightarrow> nat list \<Rightarrow> nat set \<Rightarrow> bool" where
  "store_inv w h d ns F =
     (linked d ns \<and> finite F \<and> F \<inter> set ns = {} \<and>
      (\<forall>n \<in> set ns \<union> F. n < length (area_list d) \<and> n \<le> area_index d \<and>
                           within_image w h (area_list d ! n)))"

text \<open>The number of areas among the slots \<open>S\<close> that hold a pixel.\<close>

definition free_cover :: "japacker_internal_data \<Rightarrow> nat set \<Rightarrow> nat \<times> nat \<Rightarrow> nat" where
  "free_cover d S p = (\<Sum>n \<in> S. holds (area_list d ! n) p)"

section \<open>Evaluation\<close>

lemma replicate_numeral_unfold: "replicate (numeral k) x = x # replicate (pred_numeral k) x"
  by (simp add: numeral_eq_Suc)

lemma list_update_numeral_unfold: "(x # xs)[numeral k := y] = x # xs[pred_numeral k := y]"
  by (simp add: numeral_eq_Suc)

lemma find_smaller_numeral:
  "find_smaller (numeral k) l c (Some n) =
     (if ea_comparator (l ! n) < c then Inr (Some n)
      else find_smaller (pred_numeral k) l c (ea_prev (l ! n)))"
  by (simp add: numeral_eq_Suc)

lemma merge_scan_numeral:
  "merge_scan (numeral k) l area (Some c) =
     (case adjacent (l ! c) (l ! area) of
        Some k \<Rightarrow> Inr (Some (c, k))
      | None \<Rightarrow> merge_scan (pred_numeral k) l area (ea_next (l ! c)))"
  by (simp add: numeral_eq_Suc)

lemma merge_depth_numeral:
  "merge_depth (numeral k) d area =
     (let l = area_list d in
      case merge_scan (length l) l area (first_area d) of
        Inl e \<Rightarrow> Inl e
      | Inr None \<Rightarrow> Inr (d, False)
      | Inr (Some (c, kind)) \<Rightarrow>
          (case merge_depth (pred_numeral k)
                  (japacker_delist_empty_area
                     (d\<lparr>area_list := l[area := absorb kind (l ! c) (l ! area)]\<rparr>) c) area of
             Inl e \<Rightarrow> Inl e
           | Inr (d', _) \<Rightarrow> Inr (d', True)))"
  by (simp add: numeral_eq_Suc)

lemma find_fit_numeral:
  "find_fit (numeral k) l width height (Some a) =
     (if height > ea_height (l ! a) \<or> width > ea_width (l ! a)
      then find_fit (pred_numeral k) l width height (ea_next (l ! a))
      else Inr (Some a))"
  by (simp add: numeral_eq_Suc)

lemma pack_images_numeral:
  "pack_images (numeral k) env packer packed =
     (let data = internal_data packer in
      fbind (japacker_reset_empty_areas data (image_width data) (image_height data)) (\<lambda>data'.
      fbind (deref_sorted_rects data') (\<lambda>rs.
      case pack_for env (packer\<lparr>internal_data := data'\<rparr>) 0 rs
             \<lparr>request_new_image = False, packed_rects = packed, area_used_in_last_image = 0\<rparr> of
        Inl e \<Rightarrow> Inl e
      | Inr (packer', Return v) \<Rightarrow> Inr (packer', Return v)
      | Inr (packer', Continue vars) \<Rightarrow>
          (let packer'' = packer'\<lparr>images_needed := images_needed packer' + 1\<rparr> in
           if request_new_image vars
           then pack_images (pred_numeral k) env packer'' (packed_rects vars)
           else Inr (packer'', Continue vars)))))"
  by (simp add: numeral_eq_Suc)

lemma areas_from_numeral:
  "areas_from (numeral k) l (Some a) = a # areas_from (pred_numeral k) l (ea_next (l ! a))"
  by (simp add: numeral_eq_Suc)

lemma sqrt_search_numeral:
  "sqrt_search n (numeral k) =
     (if numeral k * numeral k \<le> n then numeral k else sqrt_search n (pred_numeral k))"
  by (simp add: numeral_eq_Suc)

lemma mantissa_up_numeral:
  "mantissa_up (numeral k) p q =
     (if 2 ^ 23 * q \<le> p then 0 else Suc (mantissa_up (pred_numeral k) (2 * p) q))"
proof -
  have "numeral k = Suc (pred_numeral k)"
    by (rule numeral_eq_Suc)
  then show ?thesis
    by (simp only: mantissa_up.simps)
qed

lemma mantissa_down_numeral:
  "mantissa_down (numeral k) p q =
     (if p < 2 ^ 24 * q then 0 else Suc (mantissa_down (pred_numeral k) p (2 * q)))"
proof -
  have "numeral k = Suc (pred_numeral k)"
    by (rule numeral_eq_Suc)
  then show ?thesis
    by (simp only: mantissa_down.simps)
qed

lemmas float_simps =
  c_truncated_sqrts_def image_ratio_def truncated_sqrt_def isqrt_def float_div_def
  float_mul_def float_of_nat_def binary32_def scaled_def round_to_even_def
  mantissa_up_numeral mantissa_down_numeral

lemmas numeral_unfolds =
  replicate_numeral_unfold list_update_numeral_unfold find_smaller_numeral merge_scan_numeral
  merge_depth_numeral find_fit_numeral pack_images_numeral sqrt_search_numeral
  areas_from_numeral

lemma fbind_Inl [simp]: "fbind (Inl e) f = Inl e"
  by (simp add: fbind_def)

lemma fbind_Inr [simp]: "fbind (Inr v) f = f v"
  by (simp add: fbind_def)

lemma fbind_cong_weak: "m = m' \<Longrightarrow> fbind m f = fbind m' f"
  by simp

lemmas eval_congs =
  fbind_cong_weak sum.case_cong_weak option.case_cong_weak prod.case_cong_weak
  flow.case_cong_weak let_weak_cong

lemmas store_defs =
  zero_area_def japacker_reset_empty_areas_def
  place_in_area_def relist_shrunk_area_def japacker_split_empty_area_def split_geometry_def
  merge_both_def japacker_merge_adjacent_empty_areas_def japacker_delist_empty_area_def
  japacker_sort_empty_area_def call_set_comparator_def adjacent_def
  set_x_def set_y_def set_width_def set_height_def set_prev_def set_next_def Let_def

lemmas packer_defs =
  run_environment_def with_inputs_def japacker_init_def zero_packer_def zero_data_def
  zero_rect_def japacker_pack_def pack_prologue_def japacker_sort_rects_def deref_sorted_rects_def pack_step_def
  japacker_reduce_last_image_size_def JAPACKER_OK_def
  JAPACKER_ERROR_WRONG_PARAMETERS_def JAPACKER_ERROR_NO_MEMORY_def
  JAPACKER_TOLERABLE_AREA_DIFFERENCE_PERCENTAGE_def listed_areas_def listed_comparators_def
  comparators_ascend_def

lemmas run_simps =
  packer_defs store_defs numeral_unfolds float_simps japacker_pack_rect.simps reduce_loop.simps

section \<open>Runs that the claims fail on\<close>

text \<open>
  C2 (the list of empty areas always ascends by comparator) fails on the code. One
  rectangle of 10 x 2 is packed into an image of 12 x 3, sorted by perimeter. The split
  leaves 2 columns to the right and 1 row below, so the new slot 1 is the strip below
  (10 x 1, comparator 11) and the repurposed slot 0 is the strip to the right (2 x 3,
  comparator 5). The new area is sorted in starting from the predecessor of the
  repurposed one, so it ends in front of it: the list is slot 1, then slot 0, and the
  comparators descend.
\<close>

theorem split_leaves_list_unsorted:
  "fbind (japacker_pack (run_environment [0])
            (with_inputs (fst (japacker_init (run_environment [0]) 1 12 3)) [(10, 2)]))
     (\<lambda>(p, r). Inr (r, listed_areas (internal_data p), listed_comparators (internal_data p),
                      comparators_ascend (internal_data p)))
   = Inr (1, [1, 0], [11, 5], False)"
  by (simp add: run_simps cong: eval_congs)

theorem split_leaves_list_unsorted_witness:
  "isl (fbind (japacker_pack (run_environment [0])
            (with_inputs (fst (japacker_init (run_environment [0]) 1 12 3)) [(10, 2)]))
     (\<lambda>(p, r). Inr (r, listed_areas (internal_data p), listed_comparators (internal_data p),
                      comparators_ascend (internal_data p)))) = False"
  using split_leaves_list_unsorted by simp

text \<open>
  C7 (after the abort under the new-image policy \<open>images_needed\<close> is the number of
  images used) fails on the code. Rectangles of 7 x 7 and 1 x 11 go into images of
  10 x 10. The first pass places the 7 x 7 on image 0 and counts it; the second pass
  finds that the 1 x 11 does not fit an empty image and decrements the counter before
  this pass was counted. The call returns 1 with \<open>images_needed = 0\<close>, although image 0
  holds a rectangle.
\<close>

theorem new_image_abort_undercounts:
  "fbind (japacker_pack (run_environment [0, 1])
            ((with_inputs (fst (japacker_init (run_environment [0, 1]) 2 10 10)) [(7, 7), (1, 11)])
               \<lparr>fail_policy := JAPACKER_NEW_IMAGE\<rparr>))
     (\<lambda>(p, r). Inr (r, images_needed p, map output_packed (rects p),
                      map output_image_index (rects p)))
   = Inr (1, 0, [True, False], [0, 0])"
  by (simp add: run_simps cong: eval_congs)

theorem new_image_abort_undercounts_witness:
  "isl (fbind (japacker_pack (run_environment [0, 1])
            ((with_inputs (fst (japacker_init (run_environment [0, 1]) 2 10 10)) [(7, 7), (1, 11)])
               \<lparr>fail_policy := JAPACKER_NEW_IMAGE\<rparr>))
     (\<lambda>(p, r). Inr (r, images_needed p, map output_packed (rects p),
                      map output_image_index (rects p)))) = False"
  using new_image_abort_undercounts by simp

text \<open>
  C9 (the area handed to the optimizer is positive) fails on the code. Under the
  continue policy a single rectangle of 11 x 11 does not fit the image of 10 x 10, the
  loop completes with no area used, and the first statement of
  \<^verbatim>\<open>japacker_reduce_last_image_size\<close> divides by 0.
\<close>

theorem reduce_divides_by_zero:
  "japacker_pack (run_environment [0])
     ((with_inputs (fst (japacker_init (run_environment [0]) 1 10 10)) [(11, 11)])
        \<lparr>fail_policy := JAPACKER_CONTINUE, reduce_image_size := 1\<rparr>)
   = Inl DivisionByZero"
  by (simp add: run_simps cong: eval_congs)

theorem reduce_divides_by_zero_witness:
  "isl (japacker_pack (run_environment [0])
     ((with_inputs (fst (japacker_init (run_environment [0]) 1 10 10)) [(11, 11)])
        \<lparr>fail_policy := JAPACKER_CONTINUE, reduce_image_size := 1\<rparr>))"
  using reduce_divides_by_zero by simp

text \<open>
  C10 (the list is not empty when a rectangle fails under the new-image policy) fails
  on the code. The rectangle of 10 x 10 fills the image of 10 x 10 exactly, which
  delists the only area; the rectangle of 1 x 1 then fails, and the test of the first
  area reads through the null pointer \<open>first\<close>.
\<close>

theorem new_image_reads_null_first:
  "japacker_pack (run_environment [0, 1])
     ((with_inputs (fst (japacker_init (run_environment [0, 1]) 2 10 10)) [(10, 10), (1, 1)])
        \<lparr>fail_policy := JAPACKER_NEW_IMAGE\<rparr>)
   = Inl NullPointer"
  by (simp add: run_simps cong: eval_congs)

theorem new_image_reads_null_first_witness:
  "isl (japacker_pack (run_environment [0, 1])
     ((with_inputs (fst (japacker_init (run_environment [0, 1]) 2 10 10)) [(10, 10), (1, 1)])
        \<lparr>fail_policy := JAPACKER_NEW_IMAGE\<rparr>))"
  using new_image_reads_null_first by simp

section \<open>What the operations leave alone\<close>

text \<open>
  The fields of the internal data that no operation on the empty areas writes, and the
  number of slots.
\<close>

definition frame_kept :: "japacker_internal_data \<Rightarrow> japacker_internal_data \<Rightarrow> bool" where
  "frame_kept d d' =
     (sorted_rects d' = sorted_rects d \<and> num_rects d' = num_rects d \<and>
      image_width d' = image_width d \<and> image_height d' = image_height d \<and>
      area_size d' = area_size d \<and> set_comparator d' = set_comparator d \<and>
      length (area_list d') = length (area_list d))"

text \<open>The options and the number of rectangles, which packing never writes.\<close>

definition options_kept :: "japacker_t \<Rightarrow> japacker_t \<Rightarrow> bool" where
  "options_kept p p' =
     (allow_rotation p' = allow_rotation p \<and> rects_are_sorted p' = rects_are_sorted p \<and>
      always_repack p' = always_repack p \<and> reduce_image_size p' = reduce_image_size p \<and>
      sort_by p' = sort_by p \<and> fail_policy p' = fail_policy p \<and>
      length (rects p') = length (rects p))"

lemma frame_kept_refl [simp]: "frame_kept d d"
  by (simp add: frame_kept_def)

lemma frame_kept_trans: "frame_kept d d' \<Longrightarrow> frame_kept d' d'' \<Longrightarrow> frame_kept d d''"
  by (simp add: frame_kept_def)

lemma reset_ok:
  assumes "0 < area_size d" "nat (area_size d) \<le> length (area_list d)"
  shows "\<exists>d'. japacker_reset_empty_areas d w h = Inr d' \<and> frame_kept d d'"
  using assms by (auto simp: japacker_reset_empty_areas_def Let_def frame_kept_def)

section \<open>C5: packing again when everything is packed\<close>

text \<open>
  C5 as stated fails on the code: a second call with \<open>always_repack\<close> off does not
  return the count of the first call and does not leave \<open>images_needed\<close> alone. One
  rectangle of 2 x 2 goes into an image of 4 x 4; the first call returns 1 and sets
  \<open>images_needed\<close> to 1, the second call returns 0 and sets \<open>images_needed\<close> to 2.
  The returned number is the number of rectangles packed by the call, as documented.
  The counter is another matter: the source documents \<open>images_needed\<close> as always 1
  outside the new-image policy.
\<close>

theorem second_pack_counts_again:
  "fbind (japacker_pack (run_environment [0])
            (with_inputs (fst (japacker_init (run_environment [0]) 1 4 4)) [(2, 2)]))
     (\<lambda>(p, r). fbind (japacker_pack (run_environment [0]) p)
        (\<lambda>(p', r'). Inr (r, images_needed p, r', images_needed p')))
   = Inr (1, 1, 0, 2)"
  by (simp add: run_simps cong: eval_congs)

text \<open>
  C5 as amended: when the parameters are valid, the rectangles are sorted,
  \<open>always_repack\<close> is off (so the statements before the loop change nothing), every
  rectangle of the sorted view is packed and \<open>reduce_image_size\<close> is off, a call of
  \<^verbatim>\<open>japacker_pack\<close> returns 0 (the number of rectangles it packed), changes no
  rectangle and records the nominal size as the last image's. Nothing is said about
  \<open>images_needed\<close>.
\<close>

lemma pack_for_all_packed:
  assumes "\<forall>r \<in> set rs. output_packed (rects p ! r)" and "always_repack p \<noteq> 1"
  shows "pack_for env p i rs vars = Inr (p, Continue vars)"
  using assms
  by (induction rs arbitrary: i) (simp_all add: pack_step_def)

theorem repack_of_packed_set:
  assumes "pack_prologue env p = (p, JAPACKER_OK)"
    and "sorted_rects (internal_data p) = Some rs"
    and "\<forall>r \<in> set rs. output_packed (rects p ! r)"
    and "always_repack p = 0"
    and "reduce_image_size p \<noteq> 1"
    and "0 < area_size (internal_data p)"
    and "nat (area_size (internal_data p)) \<le> length (area_list (internal_data p))"
  shows "\<exists>p'. japacker_pack env p = Inr (p', 0) \<and> rects p' = rects p \<and>
           last_image_width p' = image_width (internal_data p) \<and>
           last_image_height p' = image_height (internal_data p)"
proof -
  obtain d' where d': "japacker_reset_empty_areas (internal_data p) (image_width (internal_data p))
        (image_height (internal_data p)) = Inr d'" "frame_kept (internal_data p) d'"
    using reset_ok [OF assms(6,7)] by metis
  let ?q = "p\<lparr>internal_data := d'\<rparr>"
  let ?v = "\<lparr>request_new_image = False, packed_rects = 0, area_used_in_last_image = 0\<rparr>"
  have "pack_for env ?q 0 rs ?v = Inr (?q, Continue ?v)"
    by (rule pack_for_all_packed) (use assms(3,4) in simp_all)
  then have "pack_images (Suc (unat (num_rects (internal_data p)))) env p 0
      = Inr (?q\<lparr>images_needed := images_needed p + 1\<rparr>, Continue ?v)"
    using d' assms(2) by (simp add: deref_sorted_rects_def Let_def frame_kept_def)
  then show ?thesis
    using assms(1,5) d' by (simp add: japacker_pack_def JAPACKER_OK_def Let_def frame_kept_def)
qed


theorem repack_of_packed_set_witness:
  "\<exists>p'. japacker_pack (run_environment [0])
          \<lparr>rects = [\<lparr>input_width = 2, input_height = 2, output_x = 0, output_y = 0,
                     output_packed = True, output_rotated = False, output_image_index = 0\<rparr>],
           allow_rotation = 0, rects_are_sorted = 1, always_repack = 0, reduce_image_size = 0,
           sort_by = JAPACKER_SORT_BY_PERIMETER, fail_policy = JAPACKER_STOP,
           images_needed = 1, last_image_width = 4, last_image_height = 4,
           internal_data =
             \<lparr>sorted_rects = Some [0], num_rects = 1, image_width = 4, image_height = 4,
              first_area = Some 1, last_area = Some 0,
              area_list =
                [\<lparr>ea_x = 0, ea_y = 2, ea_width = 4, ea_height = 2, ea_comparator = 6,
                    ea_prev = Some 1, ea_next = None\<rparr>,
                 \<lparr>ea_x = 2, ea_y = 0, ea_width = 2, ea_height = 2, ea_comparator = 4,
                    ea_prev = None, ea_next = Some 0\<rparr>],
              area_index = 1, area_size = 2,
              set_comparator = Some JAPACKER_SORT_BY_PERIMETER\<rparr>\<rparr> = Inr (p', 0) \<and>
        map output_x (rects p') = [0] \<and>
        last_image_width p' = 4 \<and> last_image_height p' = 4"
  using repack_of_packed_set [of "run_environment [0]"
          "\<lparr>rects = [\<lparr>input_width = 2, input_height = 2, output_x = 0, output_y = 0,
                     output_packed = True, output_rotated = False, output_image_index = 0\<rparr>],
           allow_rotation = 0, rects_are_sorted = 1, always_repack = 0, reduce_image_size = 0,
           sort_by = JAPACKER_SORT_BY_PERIMETER, fail_policy = JAPACKER_STOP,
           images_needed = 1, last_image_width = 4, last_image_height = 4,
           internal_data =
             \<lparr>sorted_rects = Some [0], num_rects = 1, image_width = 4, image_height = 4,
              first_area = Some 1, last_area = Some 0,
              area_list =
                [\<lparr>ea_x = 0, ea_y = 2, ea_width = 4, ea_height = 2, ea_comparator = 6,
                    ea_prev = Some 1, ea_next = None\<rparr>,
                 \<lparr>ea_x = 2, ea_y = 0, ea_width = 2, ea_height = 2, ea_comparator = 4,
                    ea_prev = None, ea_next = Some 0\<rparr>],
              area_index = 1, area_size = 2,
              set_comparator = Some JAPACKER_SORT_BY_PERIMETER\<rparr>\<rparr>" "[0]"]
  by (simp add: pack_prologue_def JAPACKER_OK_def Let_def) fastforce

section \<open>C6: the stop policy\<close>




lemma options_kept_refl [simp]: "options_kept p p"
  by (simp add: options_kept_def)

lemma options_kept_trans: "options_kept p p' \<Longrightarrow> options_kept p' p'' \<Longrightarrow> options_kept p p''"
  by (simp add: options_kept_def)









section \<open>C8: rotation\<close>

text \<open>
  C8 (the offset of a pixel of a rotated rectangle is computed with the width of the
  image the rectangle is on) fails on the code. Rectangles of 2 x 10, 8 x 3 and 5 x 5 go
  into images of 10 x 4 with rotation allowed, under the new-image policy and with
  \<open>reduce_image_size\<close> set. The 2 x 10 only fits rotated and lands on image 0 at (0, 0),
  with its input width and height unchanged; the 8 x 3 lands on image 1; the 5 x 5 fits
  no empty image, so the call returns 2 after the decrement that leaves
  \<open>images_needed = 1\<close>, and before \<open>last_image_width\<close> is written. For the 2 x 10 on
  image 0, which is 10 wide, \<^verbatim>\<open>japacker_get_dst_offset\<close> then takes \<open>last_image_width = 0\<close>
  as the width: the pixel (0, 0) is mapped to the offset 0, where
  \<open>(output.y + input.width - 1 - x) * 10 + output.x + y\<close> is 10.
\<close>

theorem rotated_offset_uses_unset_width:
  "fbind (japacker_pack (run_environment [0, 1, 2])
            ((with_inputs (fst (japacker_init (run_environment [0, 1, 2]) 3 10 4))
                [(2, 10), (8, 3), (5, 5)])
               \<lparr>allow_rotation := 1, reduce_image_size := 1, fail_policy := JAPACKER_NEW_IMAGE\<rparr>))
     (\<lambda>(p, r). Inr (r, images_needed p, last_image_width p, image_width (internal_data p),
                      rects p ! 0, japacker_get_dst_offset p (rects p ! 0) 0 0))
   = Inr (2, 1, 0, 10,
          \<lparr>input_width = 2, input_height = 10, output_x = 0, output_y = 0,
             output_packed = True, output_rotated = True, output_image_index = 0\<rparr>, 0)"
  by (simp add: run_simps japacker_get_dst_offset_def dst_width_def cong: eval_congs)

theorem rotated_offset_uses_unset_width_witness:
  "isl (fbind (japacker_pack (run_environment [0, 1, 2])
            ((with_inputs (fst (japacker_init (run_environment [0, 1, 2]) 3 10 4))
                [(2, 10), (8, 3), (5, 5)])
               \<lparr>allow_rotation := 1, reduce_image_size := 1, fail_policy := JAPACKER_NEW_IMAGE\<rparr>))
     (\<lambda>(p, r). Inr (r, images_needed p, last_image_width p, image_width (internal_data p),
                      rects p ! 0, japacker_get_dst_offset p (rects p ! 0) 0 0))) = False"
  using rotated_offset_uses_unset_width by simp

lemma first_of_simps [simp]:
  "first_of [] = None" "first_of (x # xs) = Some x"
  "first_of (xs @ ys) = (if xs = [] then first_of ys else first_of xs)"
  by (auto simp: first_of_def split: list.splits)

lemma last_of_simps [simp]:
  "last_of [] = None" "last_of (xs @ [x]) = Some x"
  "last_of (x # xs) = (if xs = [] then Some x else last_of xs)"
  "last_of (xs @ ys) = (if ys = [] then last_of xs else last_of ys)"
  by (auto simp: last_of_def)

lemma first_of_None [simp]: "first_of ns = None \<longleftrightarrow> ns = []"
  by (cases ns) auto

lemma last_of_None [simp]: "last_of ns = None \<longleftrightarrow> ns = []"
  by (auto simp: last_of_def)

lemma first_of_in: "first_of ns = Some n \<Longrightarrow> n \<in> set ns"
  by (cases ns) auto

lemma last_of_in: "last_of ns = Some n \<Longrightarrow> n \<in> set ns"
  by (auto simp: last_of_def split: if_splits)

lemma next_in_notin [simp]: "n \<notin> set ns \<Longrightarrow> next_in ns n = None"
  by (induction ns) auto

lemma prev_in_notin [simp]: "n \<notin> set ns \<Longrightarrow> prev_in ns n = None"
  by (induction ns) (auto dest: first_of_in)

lemma next_in_in: "next_in ns n = Some m \<Longrightarrow> m \<in> set ns"
  by (induction ns) (auto split: if_splits dest: first_of_in)

lemma prev_in_in: "prev_in ns n = Some m \<Longrightarrow> m \<in> set ns"
  by (induction ns) (auto split: if_splits)

lemma prev_in_first [simp]: "distinct ns \<Longrightarrow> first_of ns = Some n \<Longrightarrow> prev_in ns n = None"
  by (cases ns) (auto dest: first_of_in)

lemma next_in_last [simp]: "distinct ns \<Longrightarrow> last_of ns = Some n \<Longrightarrow> next_in ns n = None"
  by (induction ns) (auto dest: last_of_in split: if_splits)

lemma next_in_append:
  "distinct (xs @ ys) \<Longrightarrow>
   next_in (xs @ ys) n =
     (if n \<in> set xs then (if last_of xs = Some n then first_of ys else next_in xs n)
      else next_in ys n)"
  by (induction xs) (auto dest: last_of_in)

lemma prev_in_append:
  "distinct (xs @ ys) \<Longrightarrow>
   prev_in (xs @ ys) n =
     (if n \<in> set ys then (if first_of ys = Some n then last_of xs else prev_in ys n)
      else prev_in xs n)"
  by (induction xs) (auto dest: first_of_in)


lemma next_in_None_iff:
  "distinct ns \<Longrightarrow> n \<in> set ns \<Longrightarrow> next_in ns n = None \<longleftrightarrow> last_of ns = Some n"
  by (induction ns) (auto dest: last_of_in split: if_splits)

lemma prev_in_None_iff:
  "distinct ns \<Longrightarrow> n \<in> set ns \<Longrightarrow> prev_in ns n = None \<longleftrightarrow> first_of ns = Some n"
  by (induction ns) (auto dest: first_of_in split: if_splits)

lemma next_prev_in:
  "distinct ns \<Longrightarrow> next_in ns n = Some m \<longleftrightarrow> prev_in ns m = Some n"
  by (induction ns) (auto dest: first_of_in next_in_in prev_in_in split: if_splits)

lemma next_in_neq: "distinct ns \<Longrightarrow> next_in ns n \<noteq> Some n"
  by (induction ns) (auto dest: first_of_in next_in_in split: if_splits)

lemma prev_in_neq: "distinct ns \<Longrightarrow> prev_in ns n \<noteq> Some n"
  by (induction ns) (auto dest: first_of_in prev_in_in split: if_splits)


lemma set_prev_simps [simp]:
  "length (set_prev l n v) = length l"
  "geometry (set_prev l n v ! m) = geometry (l ! m)"
  "ea_next (set_prev l n v ! m) = ea_next (l ! m)"
  "n < length l \<Longrightarrow> ea_prev (set_prev l n v ! m) = (if m = n then v else ea_prev (l ! m))"
proof -
  show "length (set_prev l n v) = length l"
    by (simp add: set_prev_def)
  show "geometry (set_prev l n v ! m) = geometry (l ! m)"
    by (cases "n < length l") (simp_all add: set_prev_def geometry_def nth_list_update list_update_beyond)
  show "ea_next (set_prev l n v ! m) = ea_next (l ! m)"
    by (cases "n < length l") (simp_all add: set_prev_def nth_list_update list_update_beyond)
  show "n < length l \<Longrightarrow> ea_prev (set_prev l n v ! m) = (if m = n then v else ea_prev (l ! m))"
    by (simp add: set_prev_def nth_list_update)
qed

lemma set_next_simps [simp]:
  "length (set_next l n v) = length l"
  "geometry (set_next l n v ! m) = geometry (l ! m)"
  "ea_prev (set_next l n v ! m) = ea_prev (l ! m)"
  "n < length l \<Longrightarrow> ea_next (set_next l n v ! m) = (if m = n then v else ea_next (l ! m))"
proof -
  show "length (set_next l n v) = length l"
    by (simp add: set_next_def)
  show "geometry (set_next l n v ! m) = geometry (l ! m)"
    by (cases "n < length l") (simp_all add: set_next_def geometry_def nth_list_update list_update_beyond)
  show "ea_prev (set_next l n v ! m) = ea_prev (l ! m)"
    by (cases "n < length l") (simp_all add: set_next_def nth_list_update list_update_beyond)
  show "n < length l \<Longrightarrow> ea_next (set_next l n v ! m) = (if m = n then v else ea_next (l ! m))"
    by (simp add: set_next_def nth_list_update)
qed

lemma next_in_remove1:
  assumes "distinct ns" and "a \<in> set ns"
  shows "next_in (remove1 a ns) n =
           (if n = a then None else if prev_in ns a = Some n then next_in ns a else next_in ns n)"
proof -
  from assms(2) obtain xs ys where ns: "ns = xs @ a # ys"
    by (meson split_list)
  then have d: "distinct (xs @ a # ys)" "distinct (xs @ ys)" "a \<notin> set xs" "a \<notin> set ys"
    using assms(1) by auto
  have rem: "remove1 a ns = xs @ ys"
    using d ns by (simp add: remove1_append)
  have pa: "prev_in ns a = last_of xs"
    unfolding ns using d(1) by (subst prev_in_append) auto
  have na: "next_in ns a = first_of ys"
    unfolding ns using d(1) by (subst next_in_append) auto
  have nn: "next_in ns n = (if n \<in> set xs then (if last_of xs = Some n then Some a else next_in xs n)
      else if n = a then first_of ys else next_in ys n)"
    unfolding ns using d(1) by (subst next_in_append) auto
  have nr: "next_in (xs @ ys) n = (if n \<in> set xs then (if last_of xs = Some n then first_of ys else next_in xs n)
      else next_in ys n)"
    using d(2) by (rule next_in_append)
  show ?thesis
    unfolding rem nr pa na nn using d(3,4) by (auto dest: last_of_in)
qed

lemma prev_in_remove1:
  assumes "distinct ns" and "a \<in> set ns"
  shows "prev_in (remove1 a ns) n =
           (if n = a then None else if next_in ns a = Some n then prev_in ns a else prev_in ns n)"
proof -
  from assms(2) obtain xs ys where ns: "ns = xs @ a # ys"
    by (meson split_list)
  then have d: "distinct (xs @ a # ys)" "distinct (xs @ ys)" "a \<notin> set xs" "a \<notin> set ys"
    using assms(1) by auto
  have rem: "remove1 a ns = xs @ ys"
    using d ns by (simp add: remove1_append)
  have pa: "prev_in ns a = last_of xs"
    unfolding ns using d(1) by (subst prev_in_append) auto
  have na: "next_in ns a = first_of ys"
    unfolding ns using d(1) by (subst next_in_append) auto
  have pn: "prev_in ns n = (if n = a then last_of xs
      else if n \<in> set ys then (if first_of ys = Some n then Some a else prev_in ys n)
      else prev_in xs n)"
    unfolding ns using d(1) by (subst prev_in_append) (auto dest: first_of_in)
  have pr: "prev_in (xs @ ys) n = (if n \<in> set ys then (if first_of ys = Some n then last_of xs else prev_in ys n)
      else prev_in xs n)"
    using d(2) by (rule prev_in_append)
  show ?thesis
    unfolding rem pr pa na pn using d(3,4) by (auto dest: first_of_in)
qed

lemma first_of_remove1:
  assumes "distinct ns" and "a \<in> set ns"
  shows "first_of (remove1 a ns) = (if first_of ns = Some a then next_in ns a else first_of ns)"
  using assms by (cases ns) auto

lemma last_of_remove1:
  assumes "distinct ns" and "a \<in> set ns"
  shows "last_of (remove1 a ns) = (if last_of ns = Some a then prev_in ns a else last_of ns)"
proof -
  from assms(2) obtain xs ys where ns: "ns = xs @ a # ys"
    by (meson split_list)
  then have d: "distinct (xs @ a # ys)" "a \<notin> set xs" "a \<notin> set ys"
    using assms(1) by auto
  have rem: "remove1 a ns = xs @ ys"
    using d ns by (simp add: remove1_append)
  have pa: "prev_in ns a = last_of xs"
    unfolding ns using d(1) by (subst prev_in_append) auto
  show ?thesis
    unfolding rem pa using d(2,3) by (auto simp: ns dest: last_of_in)
qed

lemma delist_fields:
  assumes "a < length (area_list d)"
    and "\<And>p. ea_prev (area_list d ! a) = Some p \<Longrightarrow> p < length (area_list d) \<and> p \<noteq> a"
    and "\<And>q. ea_next (area_list d ! a) = Some q \<Longrightarrow> q < length (area_list d) \<and> q \<noteq> a"
  shows "first_area (japacker_delist_empty_area d a) =
           (if first_area d = Some a then ea_next (area_list d ! a) else first_area d)"
    and "last_area (japacker_delist_empty_area d a) =
           (if last_area d = Some a then ea_prev (area_list d ! a) else last_area d)"
    and "length (area_list (japacker_delist_empty_area d a)) = length (area_list d)"
    and "n < length (area_list d) \<Longrightarrow> ea_next (area_list (japacker_delist_empty_area d a) ! n) =
           (if n = a then None
            else if ea_prev (area_list d ! a) = Some n then ea_next (area_list d ! a)
            else ea_next (area_list d ! n))"
    and "n < length (area_list d) \<Longrightarrow> ea_prev (area_list (japacker_delist_empty_area d a) ! n) =
           (if n = a then None
            else if ea_next (area_list d ! a) = Some n then ea_prev (area_list d ! a)
            else ea_prev (area_list d ! n))"
  using assms
  by (auto simp: japacker_delist_empty_area_def Let_def split: option.splits)

lemma delist_linked:
  assumes "linked d ns" and "a \<in> set ns"
  shows "linked (japacker_delist_empty_area d a) (remove1 a ns)"
proof -
  let ?l = "area_list d"
  have dist: "distinct ns" and bound: "\<forall>n \<in> set ns. n < length ?l"
    and fst: "first_area d = first_of ns" and lst: "last_area d = last_of ns"
    and links: "\<forall>n < length ?l. ea_prev (?l ! n) = prev_in ns n \<and> ea_next (?l ! n) = next_in ns n"
    using assms(1) by (auto simp: linked_def)
  have a: "a < length ?l" using bound assms(2) by simp
  have pa: "ea_prev (?l ! a) = prev_in ns a" and na: "ea_next (?l ! a) = next_in ns a"
    using links a by auto
  have p: "\<And>p. ea_prev (?l ! a) = Some p \<Longrightarrow> p < length ?l \<and> p \<noteq> a"
    using pa bound dist prev_in_in prev_in_neq by metis
  have q: "\<And>q. ea_next (?l ! a) = Some q \<Longrightarrow> q < length ?l \<and> q \<noteq> a"
    using na bound dist next_in_in next_in_neq by metis
  note f = delist_fields [OF a p q]
  show ?thesis
    unfolding linked_def
  proof (intro conjI ballI allI impI)
    show "distinct (remove1 a ns)" using dist by simp
    show "n < length (area_list (japacker_delist_empty_area d a))" if "n \<in> set (remove1 a ns)" for n
      using that bound f(3) by (metis notin_set_remove1)
    show "first_area (japacker_delist_empty_area d a) = first_of (remove1 a ns)"
      using f(1) fst na dist assms(2) by (simp add: first_of_remove1)
    show "last_area (japacker_delist_empty_area d a) = last_of (remove1 a ns)"
      using f(2) lst pa dist assms(2) by (simp add: last_of_remove1)
    show "ea_prev (area_list (japacker_delist_empty_area d a) ! n) = prev_in (remove1 a ns) n"
      if "n < length (area_list (japacker_delist_empty_area d a))" for n
      using that f(3) f(5) [of n] links pa na dist assms(2) by (simp add: prev_in_remove1)
    show "ea_next (area_list (japacker_delist_empty_area d a) ! n) = next_in (remove1 a ns) n"
      if "n < length (area_list (japacker_delist_empty_area d a))" for n
      using that f(3) f(4) [of n] links pa na dist assms(2) by (simp add: next_in_remove1)
  qed
qed

lemma delist_geometry:
  "geometry (area_list (japacker_delist_empty_area d a) ! n) = geometry (area_list d ! n)"
  by (simp add: japacker_delist_empty_area_def Let_def split: option.splits)

lemma linkedD:
  assumes "linked d ns"
  shows "distinct ns" and "\<And>n. n \<in> set ns \<Longrightarrow> n < length (area_list d)"
    and "first_area d = first_of ns" and "last_area d = last_of ns"
    and "\<And>n. n < length (area_list d) \<Longrightarrow> ea_prev (area_list d ! n) = prev_in ns n"
    and "\<And>n. n < length (area_list d) \<Longrightarrow> ea_next (area_list d ! n) = next_in ns n"
  using assms by (auto simp: linked_def)

lemma linked_length:
  assumes "linked d ns"
  shows "length ns \<le> length (area_list d)"
proof -
  have "set ns \<subseteq> {..< length (area_list d)}"
    using linkedD(2) [OF assms] by auto
  then have "card (set ns) \<le> card {..< length (area_list d)}"
    by (intro card_mono) auto
  then show ?thesis
    using linkedD(1) [OF assms] by (simp add: distinct_card)
qed

lemma find_smaller_prefix:
  assumes "distinct (xs @ ys)"
    and "\<And>n. n \<in> set xs \<Longrightarrow> ea_prev (l ! n) = prev_in (xs @ ys) n"
    and "c \<in> set xs" and "length xs \<le> fuel"
  shows "\<exists>r. find_smaller fuel l cmp (Some c) = Inr r \<and> (\<forall>m. r = Some m \<longrightarrow> m \<in> set xs)"
  using assms
proof (induction xs arbitrary: ys c fuel rule: rev_induct)
  case Nil
  then show ?case by simp
next
  case (snoc x zs)
  obtain k where fuel: "fuel = Suc k" "length zs \<le> k"
    using snoc.prems(4) by (cases fuel) auto
  have d: "distinct (zs @ (x # ys))"
    using snoc.prems(1) by simp
  have links: "\<And>n. n \<in> set zs \<Longrightarrow> ea_prev (l ! n) = prev_in (zs @ (x # ys)) n"
    using snoc.prems(2) by simp
  show ?case
  proof (cases "c = x")
    case True
    have px: "ea_prev (l ! x) = last_of zs"
      using snoc.prems(2) [of x] d by (simp add: prev_in_append)
    show ?thesis
    proof (cases "zs = []")
      case True
      then show ?thesis using px \<open>c = x\<close> fuel by simp
    next
      case False
      then have "last zs \<in> set zs" by simp
      from snoc.IH [OF d links this fuel(2)] obtain r where
        "find_smaller k l cmp (Some (last zs)) = Inr r" "\<forall>m. r = Some m \<longrightarrow> m \<in> set zs"
        by blast
      then show ?thesis
        using px \<open>c = x\<close> fuel False by (auto simp: last_of_def)
    qed
  next
    case False
    then have "c \<in> set zs" using snoc.prems(3) by simp
    from snoc.IH [OF d links this] fuel obtain r where
      "find_smaller fuel l cmp (Some c) = Inr r" "\<forall>m. r = Some m \<longrightarrow> m \<in> set zs"
      by (metis le_SucI)
    then show ?thesis by auto
  qed
qed

lemma find_smaller_linked:
  assumes "linked d ns" and "\<And>c. cur = Some c \<Longrightarrow> c \<in> set ns"
  shows "\<exists>r. find_smaller (length (area_list d)) (area_list d) cmp cur = Inr r \<and>
           (\<forall>m. r = Some m \<longrightarrow> m \<in> set ns)"
proof (cases cur)
  case None
  then show ?thesis by simp
next
  case (Some c)
  have "distinct (ns @ [])" using linkedD(1) [OF assms(1)] by simp
  moreover have "\<And>n. n \<in> set ns \<Longrightarrow> ea_prev (area_list d ! n) = prev_in (ns @ []) n"
    using linkedD(2,5) [OF assms(1)] by simp
  moreover have "c \<in> set ns" using assms(2) Some by simp
  ultimately show ?thesis
    unfolding Some using linked_length [OF assms(1)] by (rule find_smaller_prefix)
qed

lemma next_in_insert:
  assumes "distinct (xs @ a # ys)"
  shows "next_in (xs @ a # ys) n =
     (if n = a then first_of ys else if last_of xs = Some n then Some a else next_in (xs @ ys) n)"
proof -
  have d: "distinct (xs @ ys)" "a \<notin> set xs" "a \<notin> set ys"
    using assms by auto
  show ?thesis
    using assms d by (auto simp: next_in_append [OF assms] next_in_append [OF d(1)] dest: last_of_in)
qed

lemma prev_in_insert:
  assumes "distinct (xs @ a # ys)"
  shows "prev_in (xs @ a # ys) n =
     (if n = a then last_of xs else if first_of ys = Some n then Some a else prev_in (xs @ ys) n)"
proof -
  have d: "distinct (xs @ ys)" "a \<notin> set xs" "a \<notin> set ys"
    using assms by auto
  show ?thesis
    using assms d by (auto simp: prev_in_append [OF assms] prev_in_append [OF d(1)] dest: first_of_in)
qed

lemma linked_insert:
  assumes "linked d (xs @ ys)" and "a \<notin> set (xs @ ys)" and "a < length (area_list d)"
    and "length (area_list d') = length (area_list d)"
    and "\<And>n. n < length (area_list d) \<Longrightarrow> ea_next (area_list d' ! n) =
           (if n = a then first_of ys else if last_of xs = Some n then Some a
            else ea_next (area_list d ! n))"
    and "\<And>n. n < length (area_list d) \<Longrightarrow> ea_prev (area_list d' ! n) =
           (if n = a then last_of xs else if first_of ys = Some n then Some a
            else ea_prev (area_list d ! n))"
    and "first_area d' = (if xs = [] then Some a else first_area d)"
    and "last_area d' = (if ys = [] then Some a else last_area d)"
  shows "linked d' (xs @ a # ys)"
proof -
  note L = linkedD [OF assms(1)]
  have dist: "distinct (xs @ a # ys)"
    using L(1) assms(2) by auto
  show ?thesis
    unfolding linked_def
  proof (intro conjI ballI allI impI)
    show "distinct (xs @ a # ys)" by (rule dist)
    show "n < length (area_list d')" if "n \<in> set (xs @ a # ys)" for n
      using that L(2) assms(3,4) by auto
    show "first_area d' = first_of (xs @ a # ys)"
      using assms(7) L(3) by simp
    show "last_area d' = last_of (xs @ a # ys)"
      using assms(8) L(4) by simp
    show "ea_prev (area_list d' ! n) = prev_in (xs @ a # ys) n" if "n < length (area_list d')" for n
      using that assms(4) assms(6) [of n] L(5) [of n] by (simp add: prev_in_insert [OF dist])
    show "ea_next (area_list d' ! n) = next_in (xs @ a # ys) n" if "n < length (area_list d')" for n
      using that assms(4) assms(5) [of n] L(6) [of n] by (simp add: next_in_insert [OF dist])
  qed
qed

lemma sort_geometry:
  assumes "japacker_sort_empty_area d a cur = Inr d'"
  shows "geometry (area_list d' ! n) = geometry (area_list d ! n) \<and> frame_kept d d' \<and>
         area_index d' = area_index d"
  using assms
  by (auto simp: japacker_sort_empty_area_def Let_def frame_kept_def
      split: option.splits sum.splits if_splits)

lemma sort_linked:
  assumes "linked d ns" and "a \<notin> set ns" and "a < length (area_list d)"
    and "\<And>c. cur = Some c \<Longrightarrow> c \<in> set ns"
  shows "\<exists>d' ns'. japacker_sort_empty_area d a cur = Inr d' \<and> linked d' ns' \<and>
           set ns' = insert a (set ns)"
proof -
  let ?l = "area_list d"
  note L = linkedD [OF assms(1)]
  have la: "ea_prev (?l ! a) = None" "ea_next (?l ! a) = None"
    using L(5,6) [OF assms(3)] assms(2) by simp_all
  show ?thesis
  proof (cases "ns = []")
    case True
    let ?d' = "d\<lparr>first_area := Some a, last_area := Some a\<rparr>"
    have "linked ?d' ([] @ a # [])"
      by (rule linked_insert [where d = d]) (use assms(1,3) True la in simp_all)
    moreover have "japacker_sort_empty_area d a cur = Inr ?d'"
      using True L(3) by (simp add: japacker_sort_empty_area_def)
    ultimately show ?thesis using True by force
  next
    case False
    then obtain f where f: "first_area d = Some f" "first_of ns = Some f" "f \<in> set ns"
      using L(3) by (cases ns) auto
    obtain r where r: "find_smaller (length ?l) ?l (ea_comparator (?l ! a)) cur = Inr r"
      "\<forall>m. r = Some m \<longrightarrow> m \<in> set ns"
      using find_smaller_linked [OF assms(1,4)] by blast
    show ?thesis
    proof (cases r)
      case None
      let ?d' = "d\<lparr>first_area := Some a,
                     area_list := set_next (set_prev ?l f (Some a)) a (Some f)\<rparr>"
      have fl: "f < length ?l" "f \<noteq> a" using f(3) L(2) assms(2) by auto
      have "linked ?d' ([] @ a # ns)"
        by (rule linked_insert [where d = d])
           (use assms(1,2,3) False la f fl L(4) in auto)
      moreover have "japacker_sort_empty_area d a cur = Inr ?d'"
        using r None f by (simp add: japacker_sort_empty_area_def)
      ultimately show ?thesis by force
    next
      case (Some c)
      then have c: "c \<in> set ns" using r(2) by simp
      then obtain xs ys where ns: "ns = xs @ c # ys"
        by (meson split_list)
      have cl: "c < length ?l" "c \<noteq> a" using c L(2) assms(2) by auto
      have d: "distinct (xs @ c # ys)" using L(1) ns by simp
      have nc: "ea_next (?l ! c) = first_of ys"
        using L(6) [OF cl(1)] d by (simp add: ns next_in_append)
      have lst: "last_area d = (if ys = [] then Some c else last_of ys)"
        using L(4) by (simp add: ns)
      have lin: "linked d ((xs @ [c]) @ ys)" using assms(1) ns by simp
      have notin: "a \<notin> set ((xs @ [c]) @ ys)" using assms(2) ns by simp
      show ?thesis
      proof (cases "ys = []")
        case True
        let ?d' = "d\<lparr>last_area := Some a,
                       area_list := set_next (set_prev ?l a (Some c)) c (Some a)\<rparr>"
        have "linked ?d' ((xs @ [c]) @ a # ys)"
          by (rule linked_insert [OF lin notin assms(3)])
             (use True la cl assms(3) in auto)
        moreover have "japacker_sort_empty_area d a cur = Inr ?d'"
          using r Some f lst True by (simp add: japacker_sort_empty_area_def)
        ultimately show ?thesis using ns by force
      next
        case False
        then obtain q where q: "first_of ys = Some q" "q \<in> set ys"
          by (cases ys) auto
        have ql: "q < length ?l" "q \<noteq> a" "q \<noteq> c"
          using q(2) L(2) assms(2) d ns by auto
        have ne: "last_area d \<noteq> Some c"
          using lst False d by (auto simp: last_of_def)
        let ?l1 = "set_next ?l a (ea_next (?l ! c))"
        let ?d' = "d\<lparr>area_list :=
                       set_next (set_prev (set_prev ?l1 q (Some a)) a (Some c)) c (Some a)\<rparr>"
        have "linked ?d' ((xs @ [c]) @ a # ys)"
          by (rule linked_insert [OF lin notin assms(3)])
             (use False la cl ql q nc assms(3) in auto)
        moreover have "japacker_sort_empty_area d a cur = Inr ?d'"
          using r Some f ne nc q assms(3) by (simp add: japacker_sort_empty_area_def)
        ultimately show ?thesis using ns by force
      qed
    qed
  qed
qed

lemma areas_from_suffix:
  assumes "distinct (xs @ ys)"
    and "\<And>n. n \<in> set ys \<Longrightarrow> ea_next (l ! n) = next_in (xs @ ys) n"
    and "length ys \<le> fuel"
  shows "areas_from fuel l (first_of ys) = ys"
  using assms
proof (induction ys arbitrary: xs fuel)
  case Nil
  then show ?case by simp
next
  case (Cons y ys)
  obtain k where fuel: "fuel = Suc k" "length ys \<le> k"
    using Cons.prems(3) by (cases fuel) auto
  have d: "distinct ((xs @ [y]) @ ys)" using Cons.prems(1) by simp
  have ny: "ea_next (l ! y) = first_of ys"
    using Cons.prems(2) [of y] Cons.prems(1) by (simp add: next_in_append)
  have "areas_from k l (first_of ys) = ys"
    by (rule Cons.IH [OF d _ fuel(2)]) (use Cons.prems(2) in simp)
  then show ?case using fuel ny by simp
qed

lemma listed_areas_linked:
  assumes "linked d ns"
  shows "listed_areas d = ns"
proof -
  have "areas_from (length (area_list d)) (area_list d) (first_of ns) = ns"
    by (rule areas_from_suffix [where xs = "[]"])
       (use linkedD [OF assms] linked_length [OF assms] in simp_all)
  then show ?thesis
    using linkedD(3) [OF assms] by (simp add: listed_areas_def)
qed

lemma find_fit_suffix:
  assumes "distinct (xs @ ys)"
    and "\<And>n. n \<in> set ys \<Longrightarrow> ea_next (l ! n) = next_in (xs @ ys) n"
    and "length ys \<le> fuel"
  shows "\<exists>r. find_fit fuel l w h (first_of ys) = Inr r \<and>
           (\<forall>a. r = Some a \<longrightarrow> a \<in> set ys \<and> h \<le> ea_height (l ! a) \<and> w \<le> ea_width (l ! a))"
  using assms
proof (induction ys arbitrary: xs fuel)
  case Nil
  then show ?case by simp
next
  case (Cons y ys)
  obtain k where fuel: "fuel = Suc k" "length ys \<le> k"
    using Cons.prems(3) by (cases fuel) auto
  have d: "distinct ((xs @ [y]) @ ys)" using Cons.prems(1) by simp
  have ny: "ea_next (l ! y) = first_of ys"
    using Cons.prems(2) [of y] Cons.prems(1) by (simp add: next_in_append)
  have "\<exists>r. find_fit k l w h (first_of ys) = Inr r \<and>
           (\<forall>a. r = Some a \<longrightarrow> a \<in> set ys \<and> h \<le> ea_height (l ! a) \<and> w \<le> ea_width (l ! a))"
    by (rule Cons.IH [OF d _ fuel(2)]) (use Cons.prems(2) in simp)
  then show ?case using fuel ny by (auto simp: not_less)
qed

lemma find_fit_linked:
  assumes "linked d ns"
  shows "\<exists>r. find_fit (length (area_list d)) (area_list d) w h (first_area d) = Inr r \<and>
           (\<forall>a. r = Some a \<longrightarrow> a \<in> set ns \<and> h \<le> ea_height (area_list d ! a) \<and>
                  w \<le> ea_width (area_list d ! a))"
  using find_fit_suffix [where xs = "[]" and ys = ns and l = "area_list d"
      and fuel = "length (area_list d)" and w = w and h = h]
    linkedD [OF assms] linked_length [OF assms]
  by simp

lemma merge_scan_suffix:
  assumes "distinct (xs @ ys)"
    and "\<And>n. n \<in> set ys \<Longrightarrow> ea_next (l ! n) = next_in (xs @ ys) n"
    and "length ys \<le> fuel"
  shows "\<exists>r. merge_scan fuel l a (first_of ys) = Inr r \<and>
           (\<forall>c k. r = Some (c, k) \<longrightarrow> c \<in> set ys \<and> adjacent (l ! c) (l ! a) = Some k)"
  using assms
proof (induction ys arbitrary: xs fuel)
  case Nil
  then show ?case by simp
next
  case (Cons y ys)
  obtain k where fuel: "fuel = Suc k" "length ys \<le> k"
    using Cons.prems(3) by (cases fuel) auto
  have d: "distinct ((xs @ [y]) @ ys)" using Cons.prems(1) by simp
  have ny: "ea_next (l ! y) = first_of ys"
    using Cons.prems(2) [of y] Cons.prems(1) by (simp add: next_in_append)
  have "\<exists>r. merge_scan k l a (first_of ys) = Inr r \<and>
           (\<forall>c k. r = Some (c, k) \<longrightarrow> c \<in> set ys \<and> adjacent (l ! c) (l ! a) = Some k)"
    by (rule Cons.IH [OF d _ fuel(2)]) (use Cons.prems(2) in simp)
  then show ?case using fuel ny by (auto split: option.splits)
qed

lemma merge_scan_linked:
  assumes "linked d ns"
  shows "\<exists>r. merge_scan (length (area_list d)) (area_list d) a (first_area d) = Inr r \<and>
           (\<forall>c k. r = Some (c, k) \<longrightarrow> c \<in> set ns \<and>
                    adjacent (area_list d ! c) (area_list d ! a) = Some k)"
  using merge_scan_suffix [where xs = "[]" and ys = ns and l = "area_list d"
      and fuel = "length (area_list d)" and a = a]
    linkedD [OF assms] linked_length [OF assms]
  by simp

lemma unat_add_within:
  fixes x y w :: u32
  shows "unat x + unat y \<le> unat w \<Longrightarrow> unat (x + y) = unat x + unat y"
proof -
  assume "unat x + unat y \<le> unat w"
  moreover have "unat w < 2 ^ 32" using unsigned_less [of w] by simp
  ultimately have "unat x + unat y < 2 ^ LENGTH(32)" by simp
  then show ?thesis by (simp only: unat_add_lem)
qed

lemma covers_append [simp]: "covers (xs @ ys) p = covers xs p + covers ys p"
  by (simp add: covers_def)

lemma covers_Cons [simp]: "covers (r # rs) p = (if p \<in> r then 1 else 0) + covers rs p"
  by (simp add: covers_def)

lemma covers_Nil [simp]: "covers [] p = 0"
  by (simp add: covers_def)

lemma covers_pos: "0 < covers rs p \<longleftrightarrow> (\<exists>r \<in> set rs. p \<in> r)"
  by (induction rs) auto

lemma covers_two:
  assumes "i < j" and "j < length rs" and "p \<in> rs ! i" and "p \<in> rs ! j"
  shows "2 \<le> covers rs p"
proof -
  have rs: "rs = take j rs @ rs ! j # drop (Suc j) rs"
    using assms(2) by (simp add: id_take_nth_drop)
  have "rs ! i \<in> set (take j rs)"
    using assms(1,2) by (metis in_set_conv_nth length_take min.absorb4 nth_take)
  then have "0 < covers (take j rs) p" using assms(3) covers_pos by blast
  moreover have "covers rs p = covers (take j rs) p + covers (rs ! j # drop (Suc j) rs) p"
    by (subst rs) (simp only: covers_append)
  ultimately show ?thesis using assms(4) by simp
qed

lemma tiles_of_covers:
  assumes "\<And>p. covers rs p = (if p \<in> whole then 1 else 0)"
  shows "tiles rs whole"
  unfolding tiles_def
proof (intro conjI allI impI)
  fix i j assume ij: "i < j \<and> j < length rs"
  show "rs ! i \<inter> rs ! j = {}"
  proof (rule ccontr)
    assume "rs ! i \<inter> rs ! j \<noteq> {}"
    then obtain p where "p \<in> rs ! i" "p \<in> rs ! j" by blast
    then have "2 \<le> covers rs p" using covers_two ij by blast
    then show False using assms [of p] by (simp split: if_splits)
  qed
next
  show "\<Union> (set rs) = whole"
  proof (rule set_eqI)
    fix p show "p \<in> \<Union> (set rs) \<longleftrightarrow> p \<in> whole"
      using assms [of p] covers_pos [of rs p] by (auto split: if_splits)
  qed
qed

lemma covers_map_distinct:
  assumes "distinct ns"
  shows "covers (map (\<lambda>n. area_region (l ! n)) ns) p = (\<Sum>n \<in> set ns. holds (l ! n) p)"
  using assms by (induction ns) (auto simp: holds_def)

lemma adjacentD:
  "adjacent c a = Some Adjacent_left \<Longrightarrow>
     ea_y c = ea_y a \<and> ea_height c = ea_height a \<and> ea_x c + ea_width c = ea_x a"
  "adjacent c a = Some Adjacent_right \<Longrightarrow>
     ea_y c = ea_y a \<and> ea_height c = ea_height a \<and> ea_x a + ea_width a = ea_x c"
  "adjacent c a = Some Adjacent_top \<Longrightarrow>
     ea_x c = ea_x a \<and> ea_width c = ea_width a \<and> ea_y c + ea_height c = ea_y a"
  "adjacent c a = Some Adjacent_bottom \<Longrightarrow>
     ea_x c = ea_x a \<and> ea_width c = ea_width a \<and> ea_y a + ea_height a = ea_y c"
  by (auto simp: adjacent_def Let_def split: if_splits)

lemma absorb_within_holds:
  assumes "adjacent c a = Some k" and "within_image w h c" and "within_image w h a"
  shows "within_image w h (absorb k c a) \<and> holds (absorb k c a) p = holds a p + holds c p"
proof (cases k)
  case Adjacent_left
  then have e: "ea_y c = ea_y a" "ea_height c = ea_height a" "ea_x c + ea_width c = ea_x a"
    using adjacentD(1) assms(1) by auto
  have x: "unat (ea_x a) = unat (ea_x c) + unat (ea_width c)"
    using unat_add_within [of "ea_x c" "ea_width c" w] assms(2) e(3) by (simp add: within_image_def)
  have "unat (ea_width a) + unat (ea_width c) \<le> unat w"
    using x assms(3) by (simp add: within_image_def)
  then have wd: "unat (ea_width a + ea_width c) = unat (ea_width a) + unat (ea_width c)"
    by (rule unat_add_within)
  show ?thesis
    using Adjacent_left e x wd assms(2,3)
    by (auto simp: holds_def area_region_def box_def within_image_def)
next
  case Adjacent_right
  then have e: "ea_y c = ea_y a" "ea_height c = ea_height a" "ea_x a + ea_width a = ea_x c"
    using adjacentD(2) assms(1) by auto
  have x: "unat (ea_x c) = unat (ea_x a) + unat (ea_width a)"
    using unat_add_within [of "ea_x a" "ea_width a" w] assms(3) e(3) by (simp add: within_image_def)
  have "unat (ea_width a) + unat (ea_width c) \<le> unat w"
    using x assms(2) by (simp add: within_image_def)
  then have wd: "unat (ea_width a + ea_width c) = unat (ea_width a) + unat (ea_width c)"
    by (rule unat_add_within)
  show ?thesis
    using Adjacent_right e x wd assms(2,3)
    by (auto simp: holds_def area_region_def box_def within_image_def)
next
  case Adjacent_top
  then have e: "ea_x c = ea_x a" "ea_width c = ea_width a" "ea_y c + ea_height c = ea_y a"
    using adjacentD(3) assms(1) by auto
  have y: "unat (ea_y a) = unat (ea_y c) + unat (ea_height c)"
    using unat_add_within [of "ea_y c" "ea_height c" h] assms(2) e(3) by (simp add: within_image_def)
  have "unat (ea_height a) + unat (ea_height c) \<le> unat h"
    using y assms(3) by (simp add: within_image_def)
  then have ht: "unat (ea_height a + ea_height c) = unat (ea_height a) + unat (ea_height c)"
    by (rule unat_add_within)
  show ?thesis
    using Adjacent_top e y ht assms(2,3)
    by (auto simp: holds_def area_region_def box_def within_image_def)
next
  case Adjacent_bottom
  then have e: "ea_x c = ea_x a" "ea_width c = ea_width a" "ea_y a + ea_height a = ea_y c"
    using adjacentD(4) assms(1) by auto
  have y: "unat (ea_y c) = unat (ea_y a) + unat (ea_height a)"
    using unat_add_within [of "ea_y a" "ea_height a" h] assms(3) e(3) by (simp add: within_image_def)
  have "unat (ea_height a) + unat (ea_height c) \<le> unat h"
    using y assms(2) by (simp add: within_image_def)
  then have ht: "unat (ea_height a + ea_height c) = unat (ea_height a) + unat (ea_height c)"
    by (rule unat_add_within)
  show ?thesis
    using Adjacent_bottom e y ht assms(2,3)
    by (auto simp: holds_def area_region_def box_def within_image_def)
qed

lemma linked_same_links:
  assumes "linked d ns"
    and "length (area_list d') = length (area_list d)"
    and "first_area d' = first_area d" and "last_area d' = last_area d"
    and "\<And>n. n < length (area_list d) \<Longrightarrow>
           ea_prev (area_list d' ! n) = ea_prev (area_list d ! n) \<and>
           ea_next (area_list d' ! n) = ea_next (area_list d ! n)"
  shows "linked d' ns"
  using assms by (simp add: linked_def)

lemma holds_geometry: "geometry a = geometry b \<Longrightarrow> holds a p = holds b p"
  by (simp add: geometry_def holds_def area_region_def)

lemma within_image_geometry: "geometry a = geometry b \<Longrightarrow> within_image w h a = within_image w h b"
  by (simp add: geometry_def within_image_def)

lemma absorb_links [simp]:
  "ea_prev (absorb k c a) = ea_prev a" "ea_next (absorb k c a) = ea_next a"
  by (cases k; simp)+

lemma delist_frame:
  "frame_kept d (japacker_delist_empty_area d a) \<and>
   area_index (japacker_delist_empty_area d a) = area_index d"
  by (simp add: frame_kept_def japacker_delist_empty_area_def Let_def split: option.splits)

lemma merge_depth_spec:
  assumes "linked d ns" and "a \<notin> set ns" and "a < length (area_list d)"
    and "within_image w h (area_list d ! a)"
    and "\<forall>n \<in> set ns. within_image w h (area_list d ! n)"
    and "length ns < k"
  shows "\<exists>d' ns' m. merge_depth k d a = Inr (d', m) \<and> linked d' ns' \<and> set ns' \<subseteq> set ns \<and>
           within_image w h (area_list d' ! a) \<and>
           (\<forall>n. n \<noteq> a \<longrightarrow> geometry (area_list d' ! n) = geometry (area_list d ! n)) \<and>
           frame_kept d d' \<and> area_index d' = area_index d \<and>
           (\<forall>p. holds (area_list d' ! a) p + (\<Sum>n \<in> set ns'. holds (area_list d' ! n) p)
                 = holds (area_list d ! a) p + (\<Sum>n \<in> set ns. holds (area_list d ! n) p)) \<and>
           (\<not> m \<longrightarrow> d' = d)"
  using assms
proof (induction k arbitrary: d ns)
  case 0
  then show ?case by simp
next
  case (Suc k)
  let ?l = "area_list d"
  obtain r where r: "merge_scan (length ?l) ?l a (first_area d) = Inr r"
    "\<forall>c kind. r = Some (c, kind) \<longrightarrow> c \<in> set ns \<and> adjacent (?l ! c) (?l ! a) = Some kind"
    using merge_scan_linked [OF Suc.prems(1)] by blast
  show ?case
  proof (cases r)
    case None
    then have "merge_depth (Suc k) d a = Inr (d, False)"
      using r(1) by simp
    then show ?thesis
      using Suc.prems(1,4) by (intro exI [of _ d] exI [of _ ns] exI [of _ False]) simp
  next
    case (Some ck)
    obtain c kind where ck: "ck = (c, kind)" by (cases ck)
    have c: "c \<in> set ns" and adj: "adjacent (?l ! c) (?l ! a) = Some kind"
      using r(2) Some ck by auto
    have ca: "c \<noteq> a" "c < length ?l"
      using c Suc.prems(2) linkedD(2) [OF Suc.prems(1)] by auto
    let ?d1 = "d\<lparr>area_list := ?l[a := absorb kind (?l ! c) (?l ! a)]\<rparr>"
    let ?d2 = "japacker_delist_empty_area ?d1 c"
    have l1: "linked ?d1 ns"
      by (rule linked_same_links [OF Suc.prems(1)])
         (use Suc.prems(3) in \<open>simp_all add: nth_list_update\<close>)
    have l2: "linked ?d2 (remove1 c ns)"
      by (rule delist_linked [OF l1 c])
    have len2: "length (area_list ?d2) = length ?l"
      by (simp add: japacker_delist_empty_area_def Let_def split: option.splits)
    have g2: "\<And>n. geometry (area_list ?d2 ! n) = geometry (area_list ?d1 ! n)"
      by (rule delist_geometry)
    have g2a: "geometry (area_list ?d2 ! a) = geometry (absorb kind (?l ! c) (?l ! a))"
      using g2 [of a] Suc.prems(3) by simp
    have g2n: "\<And>n. n \<noteq> a \<Longrightarrow> geometry (area_list ?d2 ! n) = geometry (?l ! n)"
      using g2 by simp
    have wc: "within_image w h (?l ! c)" using Suc.prems(5) c by simp
    note ab = absorb_within_holds [OF adj wc Suc.prems(4)]
    have wa2: "within_image w h (area_list ?d2 ! a)"
      using ab within_image_geometry [OF g2a] by simp
    have wn2: "\<forall>n \<in> set (remove1 c ns). within_image w h (area_list ?d2 ! n)"
    proof
      fix n assume n: "n \<in> set (remove1 c ns)"
      then have "n \<in> set ns" by (metis notin_set_remove1)
      then have "n \<noteq> a" "within_image w h (?l ! n)" using Suc.prems(2,5) by auto
      then show "within_image w h (area_list ?d2 ! n)"
        using within_image_geometry [OF g2n] by simp
    qed
    have a2: "a \<notin> set (remove1 c ns)" "a < length (area_list ?d2)"
      using Suc.prems(2,3) len2 by (auto dest: notin_set_remove1)
    have k2: "length (remove1 c ns) < k"
    proof -
      obtain m where "length ns = Suc m" using c by (cases ns) auto
      then show ?thesis using c Suc.prems(6) by (simp add: length_remove1)
    qed
    from Suc.IH [OF l2 a2 wa2 wn2 k2] obtain d' ns' m where
      ih: "merge_depth k ?d2 a = Inr (d', m)" "linked d' ns'" "set ns' \<subseteq> set (remove1 c ns)"
        "within_image w h (area_list d' ! a)"
        "\<forall>n. n \<noteq> a \<longrightarrow> geometry (area_list d' ! n) = geometry (area_list ?d2 ! n)"
        "frame_kept ?d2 d'" "area_index d' = area_index ?d2"
        "\<forall>p. holds (area_list d' ! a) p + (\<Sum>n \<in> set ns'. holds (area_list d' ! n) p)
                 = holds (area_list ?d2 ! a) p + (\<Sum>n \<in> set (remove1 c ns). holds (area_list ?d2 ! n) p)"
      by blast
    have run: "merge_depth (Suc k) d a = Inr (d', True)"
      using r(1) Some ck ih(1) by (simp add: Let_def)
    have sub: "set ns' \<subseteq> set ns"
      using ih(3) set_remove1_subset [of c ns] by blast
    have "frame_kept ?d1 ?d2" "area_index ?d2 = area_index ?d1"
      using delist_frame [of ?d1 c] by simp_all
    then have fr: "frame_kept d d'" "area_index d' = area_index d"
      using ih(6,7) by (simp_all add: frame_kept_def)
    have geo: "\<forall>n. n \<noteq> a \<longrightarrow> geometry (area_list d' ! n) = geometry (?l ! n)"
      using ih(5) g2n by simp
    have sums: "holds (area_list d' ! a) p + (\<Sum>n \<in> set ns'. holds (area_list d' ! n) p)
                 = holds (?l ! a) p + (\<Sum>n \<in> set ns. holds (?l ! n) p)" for p
    proof -
      have "(\<Sum>n \<in> set (remove1 c ns). holds (area_list ?d2 ! n) p)
          = (\<Sum>n \<in> set (remove1 c ns). holds (?l ! n) p)"
      proof (rule sum.cong)
        fix n assume "n \<in> set (remove1 c ns)"
        then have "n \<noteq> a" using a2(1) by auto
        then show "holds (area_list ?d2 ! n) p = holds (?l ! n) p"
          by (intro holds_geometry g2n)
      qed simp
      moreover have "set (remove1 c ns) = set ns - {c}"
        using linkedD(1) [OF Suc.prems(1)] by simp
      moreover have "(\<Sum>n \<in> set ns. holds (?l ! n) p)
          = holds (?l ! c) p + (\<Sum>n \<in> set ns - {c}. holds (?l ! n) p)"
        using c by (simp add: sum.remove)
      moreover have "holds (area_list ?d2 ! a) p = holds (?l ! a) p + holds (?l ! c) p"
        using ab holds_geometry [OF g2a] by simp
      moreover have "holds (area_list d' ! a) p + (\<Sum>n \<in> set ns'. holds (area_list d' ! n) p)
                 = holds (area_list ?d2 ! a) p
                   + (\<Sum>n \<in> set (remove1 c ns). holds (area_list ?d2 ! n) p)"
        using ih(8) by blast
      ultimately show ?thesis by (simp only: add.assoc)
    qed
    show ?thesis
      using run ih(2,4) sub fr geo sums
      by (intro exI [of _ d'] exI [of _ ns'] exI [of _ True]) simp
  qed
qed

lemma free_cover_cong:
  assumes "\<And>n. n \<in> S \<Longrightarrow> geometry (area_list d' ! n) = geometry (area_list d ! n)"
  shows "free_cover d' S p = free_cover d S p"
  unfolding free_cover_def
proof (rule sum.cong)
  fix n assume "n \<in> S"
  then show "holds (area_list d' ! n) p = holds (area_list d ! n) p"
    by (intro holds_geometry assms)
qed simp

lemma store_inv_linked: "store_inv w h d ns F \<Longrightarrow> linked d ns"
  by (simp add: store_inv_def)

lemma store_inv_same:
  assumes "store_inv w h d ns F"
    and "length (area_list d') = length (area_list d)"
    and "first_area d' = first_area d" and "last_area d' = last_area d"
    and "area_index d' = area_index d"
    and "\<And>n. n < length (area_list d) \<Longrightarrow>
           ea_prev (area_list d' ! n) = ea_prev (area_list d ! n) \<and>
           ea_next (area_list d' ! n) = ea_next (area_list d ! n)"
    and "\<And>n. n \<in> set ns \<union> F \<Longrightarrow> geometry (area_list d' ! n) = geometry (area_list d ! n)"
  shows "store_inv w h d' ns F"
proof -
  have "linked d' ns"
    by (rule linked_same_links [OF store_inv_linked [OF assms(1)] assms(2,3,4,6)])
  moreover have "within_image w h (area_list d' ! n)" if "n \<in> set ns \<union> F" for n
    using that assms(1) within_image_geometry [OF assms(7) [OF that]]
    by (simp add: store_inv_def)
  ultimately show ?thesis
    using assms(1,2,5) by (simp add: store_inv_def)
qed

lemma delist_inv:
  assumes "store_inv w h d ns F" and "a \<in> set ns"
  shows "store_inv w h (japacker_delist_empty_area d a) (remove1 a ns) (insert a F)"
    and "free_cover (japacker_delist_empty_area d a) (set (remove1 a ns) \<union> insert a F) p
           = free_cover d (set ns \<union> F) p"
proof -
  let ?d' = "japacker_delist_empty_area d a"
  note L = store_inv_linked [OF assms(1)]
  have dist: "distinct ns" using linkedD(1) [OF L] .
  have l': "linked ?d' (remove1 a ns)" by (rule delist_linked [OF L assms(2)])
  have fr: "frame_kept d ?d'" "area_index ?d' = area_index d"
    using delist_frame [of d a] by simp_all
  have sets: "set (remove1 a ns) \<union> insert a F = set ns \<union> F"
    using dist assms(2) by auto
  have w: "within_image w h (area_list ?d' ! n) = within_image w h (area_list d ! n)" for n
    by (rule within_image_geometry [OF delist_geometry])
  show "store_inv w h ?d' (remove1 a ns) (insert a F)"
    unfolding store_inv_def
    using l' assms(1) fr dist sets w
    by (auto simp: store_inv_def frame_kept_def)
  show "free_cover ?d' (set (remove1 a ns) \<union> insert a F) p = free_cover d (set ns \<union> F) p"
    unfolding sets by (rule free_cover_cong) (rule delist_geometry)
qed

lemma linked_unique: "linked d ns \<Longrightarrow> linked d ns' \<Longrightarrow> ns' = ns"
  using listed_areas_linked by metis

lemma merge_inv:
  assumes "store_inv w h d ns F" and "a \<in> F"
  shows "\<exists>d' ns' m. japacker_merge_adjacent_empty_areas d a = Inr (d', m) \<and>
           store_inv w h d' ns' F \<and> set ns' \<subseteq> set ns \<and>
           (\<forall>p. free_cover d' (set ns' \<union> F) p = free_cover d (set ns \<union> F) p) \<and>
           frame_kept d d' \<and> area_index d' = area_index d \<and>
           (\<not> m \<longrightarrow> d' = d \<and> ns' = ns)"
proof -
  let ?l = "area_list d"
  note L = store_inv_linked [OF assms(1)]
  have a: "a \<notin> set ns" "a < length ?l" "within_image w h (?l ! a)"
    using assms by (auto simp: store_inv_def)
  have wn: "\<forall>n \<in> set ns. within_image w h (?l ! n)"
    using assms(1) by (simp add: store_inv_def)
  have k: "length ns < Suc (length ?l)"
    using linked_length [OF L] by simp
  from merge_depth_spec [OF L a wn k] obtain d' ns' m where
    s: "merge_depth (Suc (length ?l)) d a = Inr (d', m)" "linked d' ns'" "set ns' \<subseteq> set ns"
      "within_image w h (area_list d' ! a)"
      "\<forall>n. n \<noteq> a \<longrightarrow> geometry (area_list d' ! n) = geometry (?l ! n)"
      "frame_kept d d'" "area_index d' = area_index d"
      "\<forall>p. holds (area_list d' ! a) p + (\<Sum>n \<in> set ns'. holds (area_list d' ! n) p)
                 = holds (?l ! a) p + (\<Sum>n \<in> set ns. holds (?l ! n) p)"
      "\<not> m \<longrightarrow> d' = d"
    by blast
  have fin: "finite F" and disj: "F \<inter> set ns = {}" "F \<inter> set ns' = {}"
    using assms(1) s(3) by (auto simp: store_inv_def)
  have inv: "store_inv w h d' ns' F"
    unfolding store_inv_def
  proof (intro conjI ballI)
    show "linked d' ns'" by (rule s(2))
    show "finite F" by (rule fin)
    show "F \<inter> set ns' = {}" by (rule disj)
    fix n assume n: "n \<in> set ns' \<union> F"
    then have n0: "n \<in> set ns \<union> F" using s(3) by auto
    then have b: "n < length ?l" "n \<le> area_index d" "within_image w h (?l ! n)"
      using assms(1) by (auto simp: store_inv_def)
    show "n < length (area_list d')" using b(1) s(6) by (simp add: frame_kept_def)
    show "n \<le> area_index d'" using b(2) s(7) by simp
    show "within_image w h (area_list d' ! n)"
    proof (cases "n = a")
      case True
      then show ?thesis using s(4) by simp
    next
      case False
      then show ?thesis
        using b(3) s(5) within_image_geometry [of "area_list d' ! n" "?l ! n"] by simp
    qed
  qed
  have cover: "free_cover d' (set ns' \<union> F) p = free_cover d (set ns \<union> F) p" for p
  proof -
    have rest: "(\<Sum>n \<in> F - {a}. holds (area_list d' ! n) p) = (\<Sum>n \<in> F - {a}. holds (?l ! n) p)"
    proof (rule sum.cong)
      fix n assume "n \<in> F - {a}"
      then have "geometry (area_list d' ! n) = geometry (?l ! n)" using s(5) by simp
      then show "holds (area_list d' ! n) p = holds (?l ! n) p" by (rule holds_geometry)
    qed simp
    have split': "free_cover d' (set ns' \<union> F) p
        = (\<Sum>n \<in> set ns'. holds (area_list d' ! n) p) + holds (area_list d' ! a) p
          + (\<Sum>n \<in> F - {a}. holds (area_list d' ! n) p)"
      unfolding free_cover_def
      using fin disj(2) assms(2)
      by (subst sum.union_disjoint) (auto simp: sum.remove [of F a])
    have split0: "free_cover d (set ns \<union> F) p
        = (\<Sum>n \<in> set ns. holds (?l ! n) p) + holds (?l ! a) p
          + (\<Sum>n \<in> F - {a}. holds (?l ! n) p)"
      unfolding free_cover_def
      using fin disj(1) assms(2)
      by (subst sum.union_disjoint) (auto simp: sum.remove [of F a])
    have "holds (area_list d' ! a) p + (\<Sum>n \<in> set ns'. holds (area_list d' ! n) p)
                 = holds (?l ! a) p + (\<Sum>n \<in> set ns. holds (?l ! n) p)"
      using s(8) by blast
    then show ?thesis
      unfolding split' split0 rest by simp
  qed
  have same: "\<not> m \<longrightarrow> d' = d \<and> ns' = ns"
    using s(2,9) L linked_unique by blast
  show ?thesis
    using s(1,3,6,7) inv cover same
    unfolding japacker_merge_adjacent_empty_areas_def by blast
qed

lemma comparator_inv:
  assumes "store_inv w h d ns F" and "set_comparator d = Some t"
  shows "\<exists>d'. call_set_comparator d a = Inr d' \<and> store_inv w h d' ns F \<and>
           (\<forall>p S. free_cover d' S p = free_cover d S p) \<and>
           frame_kept d d' \<and> area_index d' = area_index d \<and> last_area d' = last_area d \<and>
           (\<forall>n. ea_prev (area_list d' ! n) = ea_prev (area_list d ! n))"
proof -
  let ?l = "area_list d"
  let ?d' = "d\<lparr>area_list := ?l[a := (?l ! a)\<lparr>ea_comparator := comparator_of t (?l ! a)\<rparr>]\<rparr>"
  have run: "call_set_comparator d a = Inr ?d'"
    using assms(2) by (simp add: call_set_comparator_def)
  have g: "geometry (area_list ?d' ! n) = geometry (?l ! n)" for n
    by (cases "a < length ?l") (simp_all add: geometry_def nth_list_update list_update_beyond)
  have pn: "ea_prev (area_list ?d' ! n) = ea_prev (?l ! n) \<and>
            ea_next (area_list ?d' ! n) = ea_next (?l ! n)" for n
    by (cases "a < length ?l") (simp_all add: nth_list_update list_update_beyond)
  have inv: "store_inv w h ?d' ns F"
    by (rule store_inv_same [OF assms(1)]) (use g pn in simp_all)
  have cov: "free_cover ?d' S p = free_cover d S p" for S p
    by (rule free_cover_cong) (rule g)
  show ?thesis
    using run inv cov pn by (intro exI [of _ ?d']) (simp add: frame_kept_def)
qed

lemma comparator_null:
  "set_comparator d = None \<Longrightarrow> call_set_comparator d a = Inl NullPointer"
  by (simp add: call_set_comparator_def)

lemma sort_inv:
  assumes "store_inv w h d ns F" and "a \<in> F" and "\<And>c. cur = Some c \<Longrightarrow> c \<in> set ns"
  shows "\<exists>d' ns'. japacker_sort_empty_area d a cur = Inr d' \<and> store_inv w h d' ns' (F - {a}) \<and>
           set ns' = insert a (set ns) \<and>
           (\<forall>p. free_cover d' (set ns' \<union> (F - {a})) p = free_cover d (set ns \<union> F) p) \<and>
           frame_kept d d' \<and> area_index d' = area_index d"
proof -
  note L = store_inv_linked [OF assms(1)]
  have a: "a \<notin> set ns" "a < length (area_list d)"
    using assms(1,2) by (auto simp: store_inv_def)
  from sort_linked [OF L a assms(3)] obtain d' ns' where
    s: "japacker_sort_empty_area d a cur = Inr d'" "linked d' ns'" "set ns' = insert a (set ns)"
    by blast
  note g = sort_geometry [OF s(1)]
  have sets: "set ns' \<union> (F - {a}) = set ns \<union> F"
    using s(3) assms(2) by auto
  have inv: "store_inv w h d' ns' (F - {a})"
    unfolding store_inv_def
  proof (intro conjI ballI)
    show "linked d' ns'" by (rule s(2))
    show "finite (F - {a})" using assms(1) by (simp add: store_inv_def)
    show "(F - {a}) \<inter> set ns' = {}" using assms(1) s(3) by (auto simp: store_inv_def)
    fix n assume "n \<in> set ns' \<union> (F - {a})"
    then have "n \<in> set ns \<union> F" using sets by simp
    then have b: "n < length (area_list d)" "n \<le> area_index d" "within_image w h (area_list d ! n)"
      using assms(1) by (auto simp: store_inv_def)
    show "n < length (area_list d')" using b(1) g by (simp add: frame_kept_def)
    show "n \<le> area_index d'" using b(2) g by simp
    have "geometry (area_list d' ! n) = geometry (area_list d ! n)" using g by simp
    then show "within_image w h (area_list d' ! n)"
      using b(3) within_image_geometry by blast
  qed
  have cov: "free_cover d' (set ns' \<union> (F - {a})) p = free_cover d (set ns \<union> F) p" for p
    unfolding sets by (rule free_cover_cong) (use g in simp)
  show ?thesis
    using s(1,3) inv cov g by blast
qed

lemma linked_prev_valid:
  assumes "linked d ns" and "a < length (area_list d)" and "ea_prev (area_list d ! a) = Some c"
  shows "c \<in> set ns"
  using assms linkedD(5) [OF assms(1,2)] prev_in_in by metis

lemma linked_last_valid:
  assumes "linked d ns" and "last_area d = Some c"
  shows "c \<in> set ns"
  using assms linkedD(4) [OF assms(1)] last_of_in by metis

lemma relist_inv:
  assumes "store_inv w h d ns {}" and "a \<in> set ns"
  shows "(set_comparator d = None \<and> relist_shrunk_area d a = Inl NullPointer) \<or>
         (\<exists>d' ns'. relist_shrunk_area d a = Inr d' \<and> store_inv w h d' ns' {} \<and>
            (\<forall>p. free_cover d' (set ns') p = free_cover d (set ns) p) \<and>
            frame_kept d d' \<and> area_index d' = area_index d)"
proof -
  let ?l = "area_list d"
  let ?prev = "ea_prev (?l ! a)"
  let ?d0 = "japacker_delist_empty_area d a"
  note L = store_inv_linked [OF assms(1)]
  have al: "a < length ?l" using linkedD(2) [OF L assms(2)] .
  have prev: "\<And>c. ?prev = Some c \<Longrightarrow> c \<in> set (remove1 a ns)"
  proof -
    fix c assume c: "?prev = Some c"
    then have "c \<in> set ns" using linked_prev_valid [OF L al] by simp
    moreover have "c \<noteq> a"
      using c linkedD(5) [OF L al] prev_in_neq [OF linkedD(1) [OF L], of a] by auto
    ultimately show "c \<in> set (remove1 a ns)"
      using linkedD(1) [OF L] by simp
  qed
  have i0: "store_inv w h ?d0 (remove1 a ns) {a}"
    and c0: "\<And>p. free_cover ?d0 (set (remove1 a ns) \<union> {a}) p = free_cover d (set ns) p"
    using delist_inv [OF assms] by simp_all
  have f0: "frame_kept d ?d0" "area_index ?d0 = area_index d"
    using delist_frame [of d a] by simp_all
  from merge_inv [OF i0, of a] obtain d1 ns1 m where
    m1: "japacker_merge_adjacent_empty_areas ?d0 a = Inr (d1, m)" "store_inv w h d1 ns1 {a}"
      "\<forall>p. free_cover d1 (set ns1 \<union> {a}) p = free_cover ?d0 (set (remove1 a ns) \<union> {a}) p"
      "frame_kept ?d0 d1" "area_index d1 = area_index ?d0"
      "\<not> m \<longrightarrow> d1 = ?d0 \<and> ns1 = remove1 a ns"
    by blast
  have sc1: "set_comparator d1 = set_comparator d"
    using f0(1) m1(4) by (simp add: frame_kept_def)
  show ?thesis
  proof (cases "set_comparator d")
    case None
    then have "relist_shrunk_area d a = Inl NullPointer"
      using m1(1) sc1 by (simp add: relist_shrunk_area_def Let_def comparator_null)
    then show ?thesis using None by simp
  next
    case (Some t)
    then have "set_comparator d1 = Some t" using sc1 by simp
    from comparator_inv [OF m1(2) this, of a] obtain d2 where
      c2: "call_set_comparator d1 a = Inr d2" "store_inv w h d2 ns1 {a}"
        "\<forall>p S. free_cover d2 S p = free_cover d1 S p"
        "frame_kept d1 d2" "area_index d2 = area_index d1"
      by blast
    let ?cur = "if m then last_area d1 else ?prev"
    have cur: "\<And>c. ?cur = Some c \<Longrightarrow> c \<in> set ns1"
    proof -
      fix c assume c: "?cur = Some c"
      show "c \<in> set ns1"
      proof (cases m)
        case True
        then show ?thesis
          using c linked_last_valid [OF store_inv_linked [OF m1(2)]] by simp
      next
        case False
        then show ?thesis using c prev m1(6) by simp
      qed
    qed
    have a1: "a \<in> {a}" by simp
    from sort_inv [OF c2(2) a1 cur] obtain d3 ns3 where
      s3: "japacker_sort_empty_area d2 a ?cur = Inr d3" "store_inv w h d3 ns3 ({a} - {a})"
        "set ns3 = insert a (set ns1)"
        "\<forall>p. free_cover d3 (set ns3 \<union> ({a} - {a})) p = free_cover d2 (set ns1 \<union> {a}) p"
        "frame_kept d2 d3" "area_index d3 = area_index d2"
      by blast
    have run: "relist_shrunk_area d a = Inr d3"
      using m1(1) c2(1) s3(1) by (simp add: relist_shrunk_area_def Let_def)
    have inv: "store_inv w h d3 ns3 {}" using s3(2) by simp
    have cov: "free_cover d3 (set ns3) p = free_cover d (set ns) p" for p
    proof -
      have "free_cover d3 (set ns3) p = free_cover d2 (set ns1 \<union> {a}) p"
        using s3(4) [rule_format, of p] by simp
      also have "\<dots> = free_cover d1 (set ns1 \<union> {a}) p" using c2(3) [rule_format] by simp
      also have "\<dots> = free_cover ?d0 (set (remove1 a ns) \<union> {a}) p"
        using m1(3) [rule_format, of p] by simp
      also have "\<dots> = free_cover d (set ns) p" by (rule c0)
      finally show ?thesis .
    qed
    have fr: "frame_kept d d3"
      using f0(1) m1(4) c2(4) s3(5) by (simp add: frame_kept_def)
    have ix: "area_index d3 = area_index d"
      using f0(2) m1(5) c2(5) s3(6) by simp
    show ?thesis
      using run inv cov fr ix by blast
  qed
qed

lemma set_geometry_links [simp]:
  "length (set_x l n v) = length l" "length (set_y l n v) = length l"
  "length (set_width l n v) = length l" "length (set_height l n v) = length l"
  "ea_prev (set_x l n v ! m) = ea_prev (l ! m)" "ea_next (set_x l n v ! m) = ea_next (l ! m)"
  "ea_prev (set_y l n v ! m) = ea_prev (l ! m)" "ea_next (set_y l n v ! m) = ea_next (l ! m)"
  "ea_prev (set_width l n v ! m) = ea_prev (l ! m)" "ea_next (set_width l n v ! m) = ea_next (l ! m)"
  "ea_prev (set_height l n v ! m) = ea_prev (l ! m)" "ea_next (set_height l n v ! m) = ea_next (l ! m)"
proof -
  show "length (set_x l n v) = length l" "length (set_y l n v) = length l"
    "length (set_width l n v) = length l" "length (set_height l n v) = length l"
    by (simp_all add: set_x_def set_y_def set_width_def set_height_def)
  show "ea_prev (set_x l n v ! m) = ea_prev (l ! m)"
    by (cases "n < length l") (simp_all add: set_x_def nth_list_update list_update_beyond)
  show "ea_next (set_x l n v ! m) = ea_next (l ! m)"
    by (cases "n < length l") (simp_all add: set_x_def nth_list_update list_update_beyond)
  show "ea_prev (set_y l n v ! m) = ea_prev (l ! m)"
    by (cases "n < length l") (simp_all add: set_y_def nth_list_update list_update_beyond)
  show "ea_next (set_y l n v ! m) = ea_next (l ! m)"
    by (cases "n < length l") (simp_all add: set_y_def nth_list_update list_update_beyond)
  show "ea_prev (set_width l n v ! m) = ea_prev (l ! m)"
    by (cases "n < length l") (simp_all add: set_width_def nth_list_update list_update_beyond)
  show "ea_next (set_width l n v ! m) = ea_next (l ! m)"
    by (cases "n < length l") (simp_all add: set_width_def nth_list_update list_update_beyond)
  show "ea_prev (set_height l n v ! m) = ea_prev (l ! m)"
    by (cases "n < length l") (simp_all add: set_height_def nth_list_update list_update_beyond)
  show "ea_next (set_height l n v ! m) = ea_next (l ! m)"
    by (cases "n < length l") (simp_all add: set_height_def nth_list_update list_update_beyond)
qed

lemma set_geometry_fields [simp]:
  "n < length l \<Longrightarrow> ea_x (set_x l n v ! m) = (if m = n then v else ea_x (l ! m))"
  "ea_y (set_x l n v ! m) = ea_y (l ! m)"
  "ea_width (set_x l n v ! m) = ea_width (l ! m)"
  "ea_height (set_x l n v ! m) = ea_height (l ! m)"
  "ea_x (set_y l n v ! m) = ea_x (l ! m)"
  "n < length l \<Longrightarrow> ea_y (set_y l n v ! m) = (if m = n then v else ea_y (l ! m))"
  "ea_width (set_y l n v ! m) = ea_width (l ! m)"
  "ea_height (set_y l n v ! m) = ea_height (l ! m)"
  "ea_x (set_width l n v ! m) = ea_x (l ! m)"
  "ea_y (set_width l n v ! m) = ea_y (l ! m)"
  "n < length l \<Longrightarrow> ea_width (set_width l n v ! m) = (if m = n then v else ea_width (l ! m))"
  "ea_height (set_width l n v ! m) = ea_height (l ! m)"
  "ea_x (set_height l n v ! m) = ea_x (l ! m)"
  "ea_y (set_height l n v ! m) = ea_y (l ! m)"
  "ea_width (set_height l n v ! m) = ea_width (l ! m)"
  "n < length l \<Longrightarrow> ea_height (set_height l n v ! m) = (if m = n then v else ea_height (l ! m))"
  by (cases "n < length l";
      simp add: set_x_def set_y_def set_width_def set_height_def nth_list_update list_update_beyond)+

lemma geometry_fields:
  "geometry a = (x, y, w, h) \<longleftrightarrow> ea_x a = x \<and> ea_y a = y \<and> ea_width a = w \<and> ea_height a = h"
  by (auto simp: geometry_def)

lemma split_geometry_links:
  "length (split_geometry l area new rw rh) = length l"
  "ea_prev (split_geometry l area new rw rh ! m) = ea_prev (l ! m)"
  "ea_next (split_geometry l area new rw rh ! m) = ea_next (l ! m)"
  by (simp_all add: split_geometry_def Let_def)

lemma split_geometry_nth:
  assumes "area < length l" and "new < length l" and "new \<noteq> area"
  shows "geometry (split_geometry l area new rw rh ! m) =
     (if m = area then
        (if sint (ea_width (l ! area) - rw) > sint (ea_height (l ! area) - rh)
         then (ea_x (l ! area) + rw, ea_y (l ! area), ea_width (l ! area) - rw, ea_height (l ! area))
         else (ea_x (l ! area), ea_y (l ! area) + rh, ea_width (l ! area), ea_height (l ! area) - rh))
      else if m = new then
        (if sint (ea_width (l ! area) - rw) > sint (ea_height (l ! area) - rh)
         then (ea_x (l ! area), ea_y (l ! area) + rh, rw, ea_height (l ! area) - rh)
         else (ea_x (l ! area) + rw, ea_y (l ! area), ea_width (l ! area) - rw, rh))
      else geometry (l ! m))"
  using assms
  by (simp add: split_geometry_def Let_def geometry_def)

lemma unat_shift:
  fixes x r s w :: u32
  assumes "unat x + unat s \<le> unat w" and "r \<le> s"
  shows "unat (x + r) = unat x + unat r" and "unat (s - r) = unat s - unat r"
    and "unat r \<le> unat s"
proof -
  show le: "unat r \<le> unat s" using assms(2) by (simp add: word_le_nat_alt)
  then have "unat x + unat r \<le> unat w" using assms(1) by simp
  then show "unat (x + r) = unat x + unat r" by (rule unat_add_within)
  show "unat (s - r) = unat s - unat r" using assms(2) by (rule unat_sub)
qed

lemma shrink_x_holds:
  assumes "within_image w h a" and "rw \<le> ea_width a"
    and "geometry b = (ea_x a + rw, ea_y a, ea_width a - rw, ea_height a)"
  shows "within_image w h b \<and>
         holds b p + (if p \<in> box (unat (ea_x a)) (unat (ea_y a)) (unat rw) (unat (ea_height a))
                      then 1 else 0) = holds a p"
proof -
  have wx: "unat (ea_x a) + unat (ea_width a) \<le> unat w"
    using assms(1) by (simp add: within_image_def)
  note u = unat_shift [OF wx assms(2)]
  show ?thesis
    using assms(1,3) u
    by (auto simp: geometry_fields holds_def area_region_def box_def within_image_def)
qed

lemma shrink_y_holds:
  assumes "within_image w h a" and "rh \<le> ea_height a"
    and "geometry b = (ea_x a, ea_y a + rh, ea_width a, ea_height a - rh)"
  shows "within_image w h b \<and>
         holds b p + (if p \<in> box (unat (ea_x a)) (unat (ea_y a)) (unat (ea_width a)) (unat rh)
                      then 1 else 0) = holds a p"
proof -
  have wy: "unat (ea_y a) + unat (ea_height a) \<le> unat h"
    using assms(1) by (simp add: within_image_def)
  note u = unat_shift [OF wy assms(2)]
  show ?thesis
    using assms(1,3) u
    by (auto simp: geometry_fields holds_def area_region_def box_def within_image_def)
qed

lemma split_holds:
  assumes "within_image w h a" and "rw \<le> ea_width a" and "rh \<le> ea_height a"
    and "geometry b =
           (if c then (ea_x a + rw, ea_y a, ea_width a - rw, ea_height a)
            else (ea_x a, ea_y a + rh, ea_width a, ea_height a - rh))"
    and "geometry n =
           (if c then (ea_x a, ea_y a + rh, rw, ea_height a - rh)
            else (ea_x a + rw, ea_y a, ea_width a - rw, rh))"
  shows "within_image w h b \<and> within_image w h n \<and>
         holds b p + holds n p
           + (if p \<in> box (unat (ea_x a)) (unat (ea_y a)) (unat rw) (unat rh) then 1 else 0)
         = holds a p"
proof -
  have wx: "unat (ea_x a) + unat (ea_width a) \<le> unat w"
    and wy: "unat (ea_y a) + unat (ea_height a) \<le> unat h"
    using assms(1) by (simp_all add: within_image_def)
  note ux = unat_shift [OF wx assms(2)]
  note uy = unat_shift [OF wy assms(3)]
  show ?thesis
  proof (cases c)
    case True
    then show ?thesis
      using assms(1,4,5) ux uy
      by (auto simp: geometry_fields holds_def area_region_def box_def within_image_def)
  next
    case False
    then show ?thesis
      using assms(1,4,5) ux uy
      by (auto simp: geometry_fields holds_def area_region_def box_def within_image_def)
  qed
qed

end
